theory Spec2Isabelle
  imports Main
begin

section \<open>Python values used by the crawler\<close>

text \<open>
  A Python string is modelled by its UTF-8 encoding, a HOL string: a character below 128
  is an ASCII character of the text, the characters from 128 on are the bytes of the
  other code points. Splitting at a slash, searching a dot, comparing with an ASCII text
  and matching a regular expression whose classes are ASCII do on the encoding what
  Python does on the text. What depends on the Unicode character database, on
  percent-coding or on IDNA is defined where the text is plain and is a parameter
  elsewhere: the record \<open>library\<close> below.
\<close>

datatype error =
    TypeError
  | ValueError
  | AttributeError
  | IndexError
  | KeyError
  | NoExtensionFailure
  | OtherFailure string

definition is_digit :: "char \<Rightarrow> bool" where
  "is_digit c = (c \<in> set ''0123456789'')"

definition is_space :: "char \<Rightarrow> bool" where
  \<comment> \<open>the ASCII characters that \<open>str.isspace\<close> accepts, which are those that \<open>\s\<close> matches\<close>
  "is_space c =
     (c \<in> set [CHR 0x09, CHR 0x0A, CHR 0x0B, CHR 0x0C, CHR 0x0D,
               CHR 0x1C, CHR 0x1D, CHR 0x1E, CHR 0x1F, CHR 0x20])"

definition isascii :: "string \<Rightarrow> bool" where
  \<comment> \<open>\<open>str.isascii\<close>\<close>
  "isascii s = list_all (\<lambda>c. \<not> digit7 c) s"

record library =
  lower_wide :: "string \<Rightarrow> string"
    \<comment> \<open>\<open>str.lower\<close> on a text that is not ASCII\<close>
  strip_wide :: "string \<Rightarrow> string"
    \<comment> \<open>\<open>str.strip\<close> on a text that is not ASCII\<close>
  strptime_wide :: "string \<Rightarrow> error + nat \<times> nat \<times> nat \<times> nat \<times> nat \<times> nat"
    \<comment> \<open>\<open>datetime.strptime\<close> with the crawler's format on a text that is not ASCII: year,
        month, day, hour, minute and second of the result\<close>
  unquote_escapes :: "string \<Rightarrow> string"
    \<comment> \<open>yarl's unquoter on a text with a percent sign\<close>
  quote_unsafe :: "string \<Rightarrow> string"
    \<comment> \<open>yarl's path quoter on a text with a character that it does not keep\<close>
  encode_host_wide :: "string \<Rightarrow> string"
    \<comment> \<open>the host that yarl reports once it has stored a host that is not a plain name\<close>

definition ascii_lower_char :: "char \<Rightarrow> char" where
  "ascii_lower_char c =
     (if c \<in> set ''ABCDEFGHIJKLMNOPQRSTUVWXYZ'' then char_of (of_char c + (32::nat)) else c)"

definition lower :: "library \<Rightarrow> string \<Rightarrow> string" where
  \<comment> \<open>\<open>s.lower()\<close>\<close>
  "lower lib s = (if isascii s then map ascii_lower_char s else lower_wide lib s)"

definition strip_ascii :: "string \<Rightarrow> string" where
  "strip_ascii s = rev (dropWhile is_space (rev (dropWhile is_space s)))"

definition strip :: "library \<Rightarrow> string \<Rightarrow> string" where
  \<comment> \<open>\<open>s.strip()\<close>\<close>
  "strip lib s = (if isascii s then strip_ascii s else strip_wide lib s)"

definition startswith :: "string \<Rightarrow> string \<Rightarrow> bool" where
  "startswith s p = (take (length p) s = p)"

fun split :: "char \<Rightarrow> string \<Rightarrow> string list" where
  \<comment> \<open>\<open>s.split(sep)\<close> for a one-character separator\<close>
  "split sep [] = [[]]"
| "split sep (c # cs) =
     (if c = sep then [] # split sep cs
      else (case split sep cs of [] \<Rightarrow> [[c]] | w # ws \<Rightarrow> (c # w) # ws))"

fun join :: "string \<Rightarrow> string list \<Rightarrow> string" where
  \<comment> \<open>\<open>sep.join(xs)\<close>\<close>
  "join sep [] = []"
| "join sep [x] = x"
| "join sep (x # y # ys) = x @ sep @ join sep (y # ys)"

definition rstrip_char :: "char \<Rightarrow> string \<Rightarrow> string" where
  \<comment> \<open>\<open>s.rstrip(c)\<close> for a one-character argument\<close>
  "rstrip_char c s = rev (dropWhile (\<lambda>x. x = c) (rev s))"

fun rfind :: "char \<Rightarrow> string \<Rightarrow> nat option" where
  \<comment> \<open>\<open>s.rfind(c)\<close>; \<open>None\<close> stands for Python's \<open>-1\<close>\<close>
  "rfind c [] = None"
| "rfind c (x # xs) =
     (case rfind c xs of
        Some i \<Rightarrow> Some (Suc i)
      | None \<Rightarrow> if x = c then Some 0 else None)"

section \<open>Regular expressions of the \<open>re\<close> module\<close>

text \<open>
  A backtracking matcher: \<open>rmatch r s\<close> lists, in the order Python's engine tries them,
  the rests of \<open>s\<close> that remain after \<open>r\<close> has matched a prefix of \<open>s\<close>.
\<close>

datatype regex =
    Eps
  | Cls "char list"
  | Seq regex regex
  | Alt regex regex

fun rmatch :: "regex \<Rightarrow> string \<Rightarrow> string list" where
  "rmatch Eps s = [s]"
| "rmatch (Cls cs) [] = []"
| "rmatch (Cls cs) (c # s) = (if c \<in> set cs then [s] else [])"
| "rmatch (Seq a b) s = concat (map (rmatch b) (rmatch a s))"
| "rmatch (Alt a b) s = rmatch a s @ rmatch b s"

fun lit :: "string \<Rightarrow> regex" where
  "lit [] = Eps"
| "lit (c # cs) = Seq (Cls [c]) (lit cs)"

definition opt :: "regex \<Rightarrow> regex" where
  \<comment> \<open>\<open>r?\<close>, greedy\<close>
  "opt r = Alt r Eps"

fun upto :: "nat \<Rightarrow> regex \<Rightarrow> regex" where
  \<comment> \<open>\<open>r{0,n}\<close>, greedy\<close>
  "upto 0 r = Eps"
| "upto (Suc n) r = Alt (Seq r (upto n r)) Eps"

fun alts :: "regex list \<Rightarrow> regex" where
  \<comment> \<open>\<open>r1|r2|...|rn\<close>\<close>
  "alts [] = Cls []"
| "alts [r] = r"
| "alts (r # rs) = Alt r (alts rs)"

fun seqs :: "regex list \<Rightarrow> regex" where
  "seqs [] = Eps"
| "seqs [r] = r"
| "seqs (r # rs) = Seq r (seqs rs)"

definition digit :: regex where
  "digit = Cls ''0123456789''"

definition re_match_anchored :: "regex \<Rightarrow> string \<Rightarrow> bool" where
  \<comment> \<open>\<open>re.match("^" + r + "$", s) is not None\<close>: without \<open>re.MULTILINE\<close>, \<open>$\<close> matches at
      the end of the string and just before a newline that ends the string\<close>
  "re_match_anchored r s = (\<exists>rest \<in> set (rmatch r s). rest = [] \<or> rest = [CHR 0x0A])"

section \<open>URLs (yarl)\<close>

record URL =
  scheme :: string
  user :: "string option"
  password :: "string option"
  host :: "string option"  \<comment> \<open>\<open>url.host\<close>, \<open>None\<close> for a relative URL\<close>
  port :: "nat option"
  raw_path :: string  \<comment> \<open>the stored path, percent-encoded, empty when the URL text has none\<close>
  query :: string
  fragment :: string

definition is_absolute :: "URL \<Rightarrow> bool" where
  "is_absolute u = (host u \<noteq> None)"

definition path_safe :: "char list" where
  \<comment> \<open>the characters that yarl's path quoter keeps as they are\<close>
  "path_safe =
     CHR 0x27 # ''abcdefghijklmnopqrstuvwxyzABCDEFGHIJKLMNOPQRSTUVWXYZ0123456789-._~!$()*,+&=;@:/''"

definition quote :: "library \<Rightarrow> string \<Rightarrow> string" where
  \<comment> \<open>yarl's path quoter: a text of characters it keeps comes back as it is\<close>
  "quote lib s = (if list_all (\<lambda>c. c \<in> set path_safe) s then s else quote_unsafe lib s)"

definition unquote :: "library \<Rightarrow> string \<Rightarrow> string" where
  \<comment> \<open>yarl's unquoter: a text without a percent sign comes back as it is\<close>
  "unquote lib s = (if CHR ''%'' \<notin> set s then s else unquote_escapes lib s)"

definition url_raw_parts :: "URL \<Rightarrow> string list" where
  \<comment> \<open>\<open>url.raw_parts\<close>\<close>
  "url_raw_parts u =
     (if is_absolute u then
        (if raw_path u = [] then [''/''] else ''/'' # split CHR ''/'' (tl (raw_path u)))
      else
        (if startswith (raw_path u) ''/'' then ''/'' # split CHR ''/'' (tl (raw_path u))
         else split CHR ''/'' (raw_path u)))"

definition url_parts :: "library \<Rightarrow> URL \<Rightarrow> string list" where
  \<comment> \<open>\<open>url.parts\<close>: each raw part, unquoted\<close>
  "url_parts lib u = map (unquote lib) (url_raw_parts u)"

definition url_raw_name :: "URL \<Rightarrow> string" where
  \<comment> \<open>\<open>url.raw_name\<close>\<close>
  "url_raw_name u =
     (if is_absolute u then
        (case tl (url_raw_parts u) of [] \<Rightarrow> [] | ps \<Rightarrow> last ps)
      else last (url_raw_parts u))"

definition url_name :: "library \<Rightarrow> URL \<Rightarrow> string" where
  \<comment> \<open>\<open>url.name\<close>\<close>
  "url_name lib u = unquote lib (url_raw_name u)"

definition url_raw_suffix :: "URL \<Rightarrow> string" where
  \<comment> \<open>\<open>url.raw_suffix\<close>\<close>
  "url_raw_suffix u =
     (let name = url_raw_name u in
      case rfind CHR ''.'' name of
        None \<Rightarrow> []
      | Some i \<Rightarrow> if 0 < i \<and> i < length name - 1 then drop i name else [])"

definition url_suffix :: "library \<Rightarrow> URL \<Rightarrow> string" where
  \<comment> \<open>\<open>url.suffix\<close>\<close>
  "url_suffix lib u = unquote lib (url_raw_suffix u)"

definition has_ace :: "string \<Rightarrow> bool" where
  \<comment> \<open>the text holds \<open>xn--\<close>, the mark of a label in IDNA's ASCII coding\<close>
  "has_ace h = list_ex (\<lambda>k. take 4 (drop k h) = ''xn--'') [0 ..< length h]"

definition plain_host :: "string \<Rightarrow> bool" where
  \<comment> \<open>a host name of lower-case letters, digits, hyphens and dots, with a letter (so it is
      no IP address) and without an IDNA label: yarl stores and reports it as it is\<close>
  "plain_host h =
     (list_all (\<lambda>c. c \<in> set ''abcdefghijklmnopqrstuvwxyz0123456789-.'') h
      \<and> list_ex (\<lambda>c. c \<in> set ''abcdefghijklmnopqrstuvwxyz'') h
      \<and> \<not> has_ace h)"

definition encode_host :: "library \<Rightarrow> string \<Rightarrow> string" where
  \<comment> \<open>what \<open>url.host\<close> is once yarl has stored the host \<open>h\<close>\<close>
  "encode_host lib h = (if plain_host h then h else encode_host_wide lib h)"

definition with_host :: "library \<Rightarrow> URL \<Rightarrow> string \<Rightarrow> error + URL" where
  \<comment> \<open>\<open>url.with_host(h)\<close>\<close>
  "with_host lib u h =
     (if \<not> is_absolute u then Inl ValueError
      else if h = [] then Inl ValueError
      else Inr (u\<lparr>host := Some (encode_host lib h)\<rparr>))"

fun normalize_segments :: "string list \<Rightarrow> string list \<Rightarrow> string list" where
  \<comment> \<open>the loop of yarl's \<open>_normalize_path\<close>; the second argument is \<open>resolved\<close>\<close>
  "normalize_segments [] resolved = resolved"
| "normalize_segments (seg # segs) resolved =
     (if seg = ''..'' then normalize_segments segs (butlast resolved)
      else if seg = ''.'' then normalize_segments segs resolved
      else normalize_segments segs (resolved @ [seg]))"

definition normalize_path :: "string \<Rightarrow> string" where
  "normalize_path p =
     (let segments = split CHR ''/'' p;
          resolved = normalize_segments segments []
      in join ''/'' (if last segments = ''.'' \<or> last segments = ''..''
                     then resolved @ [[]] else resolved))"

definition truediv :: "library \<Rightarrow> URL \<Rightarrow> string \<Rightarrow> error + URL" where
  \<comment> \<open>\<open>url / name\<close>, as of yarl 1.9.2\<close>
  "truediv lib u name =
     (let name = quote lib name in
      if startswith name ''/'' then Inl ValueError
      else
        let new_path =
              (if raw_path u = ''/'' then ''/'' @ name
               else if raw_path u = [] \<and> \<not> is_absolute u then name
               else join ''/'' (split CHR ''/'' (rstrip_char CHR ''/'' (raw_path u)) @ [name]));
            new_path = (if is_absolute u then normalize_path new_path else new_path)
        in Inr (u\<lparr>raw_path := new_path, query := [], fragment := []\<rparr>))"

section \<open>The link normaliser of the Bunkrr crawler\<close>

text \<open>
  \<open>FILE_FORMATS\<close> is a table of \<open>cyberdrop_dl.utils.utilities\<close>, whose text is not among the
  sources: the crawler reads its two entries \<open>'Images'\<close> and \<open>'Videos'\<close>, which are
  parameters here.
\<close>

record file_formats =
  Images :: "string set"
  Videos :: "string set"

definition primary_base_domain :: URL where
  \<comment> \<open>\<open>URL("https://bunkrr.su")\<close>\<close>
  "primary_base_domain =
     \<lparr>scheme = ''https'', user = None, password = None, host = Some ''bunkrr.su'',
      port = None, raw_path = [], query = [], fragment = []\<rparr>"

definition cdn_possibilities :: regex where
  "cdn_possibilities =
     seqs [
       Alt
         (Seq (alts [lit ''media-files'', lit ''cdn'', lit ''c'', lit ''pizza'',
                     lit ''cdn-burger''])
              (upto 2 digit))
         (seqs [alts [lit ''big-taco-'', lit ''cdn-pizza'', lit ''cdn-meatballs'',
                      lit ''cdn-milkshake''],
                upto 2 digit,
                opt (lit ''redir'')]),
       lit ''.bunk'', opt (lit ''r''), lit ''.'',
       Cls ''abcdefghijklmnopqrstuvwxyz'', Cls ''abcdefghijklmnopqrstuvwxyz'',
       opt (Cls ''abcdefghijklmnopqrstuvwxyz'')]"

definition sub_cdn_prefix :: "string \<Rightarrow> string" where
  \<comment> \<open>\<open>re.sub(r"^cdn(\d*)\.", r"i\1.", h)\<close> on an ASCII host, as every host that matches
      \<open>cdn_possibilities\<close> is: the greedy \<open>\d*\<close> takes every digit that follows \<open>cdn\<close>, and the
      pattern matches only if a dot comes next\<close>
  "sub_cdn_prefix h =
     (if startswith h ''cdn'' then
        (let digits = takeWhile is_digit (drop 3 h);
             rest = dropWhile is_digit (drop 3 h)
         in if startswith rest ''.'' then ''i'' @ digits @ rest else h)
      else h)"

definition get_stream_link :: "library \<Rightarrow> file_formats \<Rightarrow> URL \<Rightarrow> error + URL" where
  \<comment> \<open>\<open>re.match\<close> raises \<open>TypeError\<close> when \<open>url.host\<close> is \<open>None\<close>\<close>
  "get_stream_link lib FILE_FORMATS url =
     (case host url of
        None \<Rightarrow> Inl TypeError
      | Some h \<Rightarrow>
          if \<not> re_match_anchored cdn_possibilities h then Inr url
          else
            let ext = lower lib (url_suffix lib url) in
            if ext = [] then Inr url
            else if ext \<in> Images FILE_FORMATS then with_host lib url (sub_cdn_prefix h)
            else if ext \<in> Videos FILE_FORMATS then
              (case truediv lib primary_base_domain ''v'' of
                 Inl e \<Rightarrow> Inl e
               | Inr u \<Rightarrow> truediv lib u (last (url_parts lib url)))
            else
              (case truediv lib primary_base_domain ''d'' of
                 Inl e \<Rightarrow> Inl e
               | Inr u \<Rightarrow> truediv lib u (last (url_parts lib url))))"

section \<open>Timestamps\<close>

text \<open>
  \<open>datetime.strptime(date, "%H:%M:%S %d/%m/%Y")\<close> compiles the format into the regular
  expression below (one group per directive, \<open>\s+\<close> for the blank) and matches it at the
  start of the text; the first match in backtracking order is the one it takes, and text
  left over after it is an error. On an ASCII text \<open>\d\<close> is an ASCII digit and \<open>\s\<close> an ASCII
  blank; a text with other characters (Unicode has more digits and blanks) is left to
  \<open>strptime_wide\<close>.
\<close>

definition re_H :: regex where
  \<comment> \<open>\<open>(?P<H>2[0-3]|[0-1]\d|\d)\<close>\<close>
  "re_H = alts [Seq (Cls ''2'') (Cls ''0123''), Seq (Cls ''01'') digit, digit]"

definition re_M :: regex where
  \<comment> \<open>\<open>(?P<M>[0-5]\d|\d)\<close>\<close>
  "re_M = alts [Seq (Cls ''012345'') digit, digit]"

definition re_S :: regex where
  \<comment> \<open>\<open>(?P<S>6[0-1]|[0-5]\d|\d)\<close>\<close>
  "re_S = alts [Seq (Cls ''6'') (Cls ''01''), Seq (Cls ''012345'') digit, digit]"

definition re_d :: regex where
  \<comment> \<open>\<open>(?P<d>3[0-1]|[1-2]\d|0[1-9]|[1-9]| [1-9])\<close>\<close>
  "re_d = alts [Seq (Cls ''3'') (Cls ''01''), Seq (Cls ''12'') digit,
                Seq (Cls ''0'') (Cls ''123456789''), Cls ''123456789'',
                Seq (Cls '' '') (Cls ''123456789'')]"

definition re_m :: regex where
  \<comment> \<open>\<open>(?P<m>1[0-2]|0[1-9]|[1-9])\<close>\<close>
  "re_m = alts [Seq (Cls ''1'') (Cls ''012''), Seq (Cls ''0'') (Cls ''123456789''),
                Cls ''123456789'']"

definition re_Y :: regex where
  \<comment> \<open>\<open>(?P<Y>\d\d\d\d)\<close>\<close>
  "re_Y = seqs [digit, digit, digit, digit]"

type_synonym partial_match = "string list \<times> string"
  \<comment> \<open>the groups matched so far, and the text that is left\<close>

definition group :: "regex \<Rightarrow> partial_match \<Rightarrow> partial_match list" where
  "group r m =
     (case m of (gs, s) \<Rightarrow>
        map (\<lambda>rest. (gs @ [take (length s - length rest) s], rest)) (rmatch r s))"

definition literal :: "string \<Rightarrow> partial_match \<Rightarrow> partial_match list" where
  "literal t m = (case m of (gs, s) \<Rightarrow> map (\<lambda>rest. (gs, rest)) (rmatch (lit t) s))"

definition spaces :: "partial_match \<Rightarrow> partial_match list" where
  \<comment> \<open>\<open>\s+\<close>, greedy: the longest run of blanks first\<close>
  "spaces m =
     (case m of (gs, s) \<Rightarrow>
        map (\<lambda>k. (gs, drop k s)) (rev [1 ..< Suc (length (takeWhile is_space s))]))"

definition and_then :: "partial_match list \<Rightarrow> (partial_match \<Rightarrow> partial_match list) \<Rightarrow> partial_match list" where
  "and_then ms f = concat (map f ms)"

definition strptime_matches :: "string \<Rightarrow> partial_match list" where
  "strptime_matches s =
     and_then (and_then (and_then (and_then (and_then (and_then (and_then (and_then
       (and_then (and_then (group re_H ([], s))
         (literal '':'')) (group re_M)) (literal '':'')) (group re_S))
         spaces) (group re_d)) (literal ''/'')) (group re_m)) (literal ''/''))
         (group re_Y)"

definition int_of_digits :: "string \<Rightarrow> nat" where
  "int_of_digits s = foldl (\<lambda>a c. 10 * a + (of_char c - 48)) 0 s"

definition py_int :: "string \<Rightarrow> nat" where
  \<comment> \<open>\<open>int(s)\<close>, for a group of the expression above: digits, after a blank at most\<close>
  "py_int s = int_of_digits (strip_ascii s)"

definition is_leap :: "nat \<Rightarrow> bool" where
  "is_leap year = (year mod 4 = 0 \<and> (year mod 100 \<noteq> 0 \<or> year mod 400 = 0))"

definition days_in_month :: "nat \<Rightarrow> nat \<Rightarrow> nat" where
  "days_in_month year month =
     (if month = 2 \<and> is_leap year then 29
      else [0, 31, 28, 31, 30, 31, 30, 31, 31, 30, 31, 30, 31] ! month)"

definition days_before_year :: "nat \<Rightarrow> int" where
  "days_before_year year =
     (let y = int year - 1 in y * 365 + y div 4 - y div 100 + y div 400)"

definition days_before_month :: "nat \<Rightarrow> nat \<Rightarrow> int" where
  "days_before_month year month =
     [-1, 0, 31, 59, 90, 120, 151, 181, 212, 243, 273, 304, 334] ! month
       + (if month > 2 \<and> is_leap year then 1 else 0)"

definition toordinal :: "nat \<Rightarrow> nat \<Rightarrow> nat \<Rightarrow> int" where
  \<comment> \<open>\<open>datetime.date(year, month, day).toordinal()\<close>\<close>
  "toordinal year month day =
     days_before_year year + days_before_month year month + int day"

definition EPOCH_ORD :: int where
  \<comment> \<open>\<open>datetime.date(1970, 1, 1).toordinal()\<close>\<close>
  "EPOCH_ORD = 719163"

definition timegm :: "nat \<Rightarrow> nat \<Rightarrow> nat \<Rightarrow> nat \<Rightarrow> nat \<Rightarrow> nat \<Rightarrow> int" where
  \<comment> \<open>\<open>calendar.timegm\<close> on the first six fields of the time tuple\<close>
  "timegm year month day hour minute second =
     (let days = toordinal year month 1 - EPOCH_ORD + int day - 1;
          hours = days * 24 + int hour;
          minutes = hours * 60 + int minute
      in minutes * 60 + int second)"

definition strptime_ascii :: "string \<Rightarrow> error + nat \<times> nat \<times> nat \<times> nat \<times> nat \<times> nat" where
  \<comment> \<open>\<open>ValueError\<close>: no match, text left over, no such date, or a second above 59\<close>
  "strptime_ascii date =
     (case strptime_matches date of
        [] \<Rightarrow> Inl ValueError
      | (gs, rest) # _ \<Rightarrow>
          if rest \<noteq> [] then Inl ValueError
          else
            (case gs of
               [H, M, S, d, m, Y] \<Rightarrow>
                 let year = py_int Y; month = py_int m; day = py_int d;
                     hour = py_int H; minute = py_int M; second = py_int S
                 in if year < 1 \<or> day < 1 \<or> days_in_month year month < day \<or> 59 < second
                    then Inl ValueError
                    else Inr (year, month, day, hour, minute, second)
             | _ \<Rightarrow> Inl ValueError))"

definition strptime :: "library \<Rightarrow> string \<Rightarrow> error + nat \<times> nat \<times> nat \<times> nat \<times> nat \<times> nat" where
  "strptime lib date = (if isascii date then strptime_ascii date else strptime_wide lib date)"

definition parse_datetime :: "library \<Rightarrow> string \<Rightarrow> error + int" where
  "parse_datetime lib date =
     (case strptime lib date of
        Inl e \<Rightarrow> Inl e
      | Inr (year, month, day, hour, minute, second) \<Rightarrow>
          Inr (timegm year month day hour minute second))"

section \<open>Scrape items\<close>

record ScrapeItem =
  url :: URL
  parent_title :: string
  part_of_album :: bool
  possible_datetime :: "int option"
  retry :: bool
  retry_path :: "string option"

definition add_to_parent_title :: "(string \<Rightarrow> string) \<Rightarrow> ScrapeItem \<Rightarrow> string \<Rightarrow> ScrapeItem" where
  \<comment> \<open>the first argument is \<open>sanitize_folder\<close> of \<open>cyberdrop_dl.utils.utilities\<close>\<close>
  "add_to_parent_title sanitize_folder self title =
     (if title = [] \<or> retry self then self
      else
        let title = sanitize_folder title in
        self\<lparr>parent_title :=
               (if parent_title self \<noteq> [] then parent_title self @ ''/'' @ title
                else title)\<rparr>)"

section \<open>The crawler's surroundings\<close>

text \<open>
  Every call the crawler makes on a collaborator that keeps state (the progress tracker,
  the cookie store, the scraper queue, the download dispatcher, the failure log) is
  recorded, in order, in \<open>events\<close>. The request limiter only delays a call and is left out.
\<close>

datatype event =
    AddTask URL nat
  | RemoveTask nat
  | UpdateCookies string string URL
  | QueuePut ScrapeItem
  | HandleFile URL ScrapeItem string string
  | LogFailure URL error

record world =
  cookies_set :: bool
  next_task_id :: nat
  events :: "event list"

definition emit :: "event \<Rightarrow> world \<Rightarrow> world" where
  "emit e w = w\<lparr>events := events w @ [e]\<rparr>"

definition add_task :: "URL \<Rightarrow> world \<Rightarrow> nat \<times> world" where
  \<comment> \<open>Modelled from the spec: the progress tracker is not among the sources; \<open>add_task(url)\<close>
      hands out a task id, here the next unused number.\<close>
  "add_task u w =
     (next_task_id w, emit (AddTask u (next_task_id w)) (w\<lparr>next_task_id := Suc (next_task_id w)\<rparr>))"

definition remove_task :: "nat \<Rightarrow> world \<Rightarrow> world" where
  \<comment> \<open>Modelled from the spec: \<open>remove_task(task_id)\<close> of the progress tracker.\<close>
  "remove_task task_id w = emit (RemoveTask task_id) w"

text \<open>
  What the selectors of the three handlers find on a parsed page: the children of the
  album's title element, the listing entries (for each, the \<open>href\<close> of its link element and
  the text of its date element, \<open>None\<close> where the element or the attribute is absent), and
  the \<open>href\<close>s of the download anchors of a file page.
\<close>

datatype node = Text string | Elem string "node list"

record card =
  card_file :: "string option option"
  card_date :: "string option"

record soup =
  sel_title :: "node list option"
  sel_cards :: "card list"
  sel_video :: "string option list"
  sel_other :: "string option list"

fun text_without_spans :: "node \<Rightarrow> string" where
  \<comment> \<open>\<open>get_text()\<close> of a node once every \<open>span\<close> below the title has been decomposed\<close>
  "text_without_spans (Text t) = t"
| "text_without_spans (Elem tag children) =
     (if tag = ''span'' then [] else concat (map text_without_spans children))"

text \<open>
  The collaborators whose text is not among the sources are parameters: the configuration,
  the page client, \<open>create_title\<close> and \<open>handle_file\<close> of the crawler base class,
  \<open>sanitize_folder\<close> and \<open>get_filename_and_ext\<close> of the utilities, and yarl's parser of URL
  texts. Those that the spec lets fail return an error. \<open>LIB\<close> is the library of the
  interpreter the crawler runs on.
\<close>

record manager =
  LIB :: library
  FILE_FORMATS :: file_formats
  authentication_data :: "string \<rightharpoonup> (string \<rightharpoonup> string option)"
  get_BS4 :: "URL \<Rightarrow> error + soup"
  create_title :: "string \<Rightarrow> string \<Rightarrow> string"
  sanitize_folder :: "string \<Rightarrow> string"
  get_filename_and_ext :: "string \<Rightarrow> error + string \<times> string"
  handle_file :: "URL \<Rightarrow> ScrapeItem \<Rightarrow> string \<Rightarrow> string \<Rightarrow> error option"
  new_URL :: "string \<Rightarrow> error + URL"

section \<open>Cookie priming\<close>

definition ddos_guard_domain :: URL where
  \<comment> \<open>\<open>URL("https://*.bunkrr.su")\<close>\<close>
  "ddos_guard_domain =
     \<lparr>scheme = ''https'', user = None, password = None, host = Some ''*.bunkrr.su'',
      port = None, raw_path = [], query = [], fragment = []\<rparr>"

definition ddos_guard :: "manager \<Rightarrow> string \<Rightarrow> error + string option" where
  \<comment> \<open>\<open>authentication_data['DDOS-Guard'][key]\<close>: a missing key raises \<open>KeyError\<close>\<close>
  "ddos_guard m key =
     (case authentication_data m ''DDOS-Guard'' of
        None \<Rightarrow> Inl KeyError
      | Some section \<Rightarrow> (case section key of None \<Rightarrow> Inl KeyError | Some v \<Rightarrow> Inr v))"

definition set_cookie :: "manager \<Rightarrow> string \<Rightarrow> string \<Rightarrow> world \<Rightarrow> error option \<times> world" where
  \<comment> \<open>one \<open>if\<close> statement of \<open>set_cookies\<close>: a value that is \<open>None\<close> or empty is falsy\<close>
  "set_cookie m key name w =
     (case ddos_guard m key of
        Inl e \<Rightarrow> (Some e, w)
      | Inr None \<Rightarrow> (None, w)
      | Inr (Some v) \<Rightarrow>
          if v = [] then (None, w)
          else (None, emit (UpdateCookies name v ddos_guard_domain) w))"

definition set_cookies :: "manager \<Rightarrow> world \<Rightarrow> error option \<times> world" where
  "set_cookies m w =
     (if cookies_set w then (None, w)
      else
        (case set_cookie m ''bunkrr_ddg1'' ''__ddg1_'' w of
           (Some e, w1) \<Rightarrow> (Some e, w1)
         | (None, w1) \<Rightarrow>
        (case set_cookie m ''bunkrr_ddg2'' ''__ddg2_'' w1 of
           (Some e, w2) \<Rightarrow> (Some e, w2)
         | (None, w2) \<Rightarrow>
        (case set_cookie m ''bunkrr_ddgid'' ''__ddgid_'' w2 of
           (Some e, w3) \<Rightarrow> (Some e, w3)
         | (None, w3) \<Rightarrow> (None, w3\<lparr>cookies_set := True\<rparr>)))))"

section \<open>The handlers\<close>

text \<open>
  A handler returns \<open>None\<close> when it returns and \<open>Some e\<close> when it raises \<open>e\<close>, together with
  the scrape item as it has mutated it and the world as it has left it.
\<close>

type_synonym handler = "ScrapeItem \<Rightarrow> world \<Rightarrow> error option \<times> ScrapeItem \<times> world"

definition error_handling_wrapper :: "handler \<Rightarrow> handler" where
  \<comment> \<open>Modelled from the spec: the decorator of \<open>cyberdrop_dl.utils.utilities\<close> is not among
      the sources. Any exception of the wrapped handler is caught, logged with the URL of
      the item (which marks the item failed) and not propagated.\<close>
  "error_handling_wrapper func scrape_item w =
     (let link = url scrape_item in
      case func scrape_item w of
        (None, item', w') \<Rightarrow> (None, item', w')
      | (Some e, item', w') \<Rightarrow> (None, item', emit (LogFailure link e) w'))"

definition album_link :: "manager \<Rightarrow> ScrapeItem \<Rightarrow> string \<Rightarrow> error + URL" where
  \<comment> \<open>lines 64 to 66: a link that starts with a slash is put on the host of the item's URL\<close>
  "album_link m scrape_item link =
     (if startswith link ''/'' then
        (case host (url scrape_item) of
           None \<Rightarrow> Inl TypeError
         | Some h \<Rightarrow> new_URL m (''https://'' @ h @ link))
      else new_URL m link)"

definition album_entry :: "manager \<Rightarrow> ScrapeItem \<Rightarrow> card \<Rightarrow> error + ScrapeItem" where
  \<comment> \<open>the body of the loop over the listing, up to the item it puts on the queue\<close>
  "album_entry m scrape_item card_listing =
     (case card_date card_listing of
        None \<Rightarrow> Inl AttributeError
      | Some date_text \<Rightarrow>
     (case parse_datetime (LIB m) date_text of
        Inl e \<Rightarrow> Inl e
      | Inr date \<Rightarrow>
     (case card_file card_listing of
        None \<Rightarrow> Inl AttributeError
      | Some None \<Rightarrow> Inl AttributeError
      | Some (Some href) \<Rightarrow>
     (case album_link m scrape_item href of
        Inl e \<Rightarrow> Inl e
      | Inr link \<Rightarrow>
     (case get_stream_link (LIB m) (FILE_FORMATS m) link of
        Inl e \<Rightarrow> Inl e
      | Inr link \<Rightarrow>
          Inr \<lparr>url = link, parent_title = parent_title scrape_item, part_of_album = True,
               possible_datetime = Some date, retry = False, retry_path = None\<rparr>)))))"

fun album_listing :: "manager \<Rightarrow> ScrapeItem \<Rightarrow> card list \<Rightarrow> world \<Rightarrow> error option \<times> world" where
  "album_listing m scrape_item [] w = (None, w)"
| "album_listing m scrape_item (card_listing # rest) w =
     (case album_entry m scrape_item card_listing of
        Inl e \<Rightarrow> (Some e, w)
      | Inr new_item \<Rightarrow> album_listing m scrape_item rest (emit (QueuePut new_item) w))"

definition album_body :: "manager \<Rightarrow> handler" where
  "album_body m scrape_item w =
     (case get_BS4 m (url scrape_item) of
        Inl e \<Rightarrow> (Some e, scrape_item, w)
      | Inr soup \<Rightarrow>
     (case sel_title soup of
        None \<Rightarrow> (Some AttributeError, scrape_item, w)
      | Some children \<Rightarrow>
     (case url_parts (LIB m) (url scrape_item) of
        p0 # p1 # album_id # _ \<Rightarrow>
          let title = create_title m
                (strip (LIB m) (concat (map text_without_spans children))) album_id;
              scrape_item = add_to_parent_title (sanitize_folder m) scrape_item title
          in (case album_listing m scrape_item (sel_cards soup) w of
                (r, w') \<Rightarrow> (r, scrape_item, w'))
      | _ \<Rightarrow> (Some IndexError, scrape_item, w))))"

definition album :: "manager \<Rightarrow> handler" where
  "album m = error_handling_wrapper (album_body m)"

definition filename_and_ext :: "manager \<Rightarrow> URL \<Rightarrow> ScrapeItem \<Rightarrow> error + string \<times> string" where
  \<comment> \<open>the \<open>try\<close> statement of \<open>video\<close> and of \<open>other\<close>\<close>
  "filename_and_ext m link scrape_item =
     (case get_filename_and_ext m (url_name (LIB m) link) of
        Inl NoExtensionFailure \<Rightarrow> get_filename_and_ext m (url_name (LIB m) (url scrape_item))
      | Inl e \<Rightarrow> Inl e
      | Inr r \<Rightarrow> Inr r)"

definition file_body :: "(soup \<Rightarrow> string option list) \<Rightarrow> manager \<Rightarrow> handler" where
  \<comment> \<open>\<open>video\<close> and \<open>other\<close> differ in the selector only\<close>
  "file_body select m scrape_item w =
     (case get_BS4 m (url scrape_item) of
        Inl e \<Rightarrow> (Some e, scrape_item, w)
      | Inr soup \<Rightarrow>
     (case select soup of
        [] \<Rightarrow> (Some IndexError, scrape_item, w)
      | anchors \<Rightarrow>
     (case last anchors of
        None \<Rightarrow> (Some TypeError, scrape_item, w)
      | Some href \<Rightarrow>
     (case new_URL m href of
        Inl e \<Rightarrow> (Some e, scrape_item, w)
      | Inr link \<Rightarrow>
     (case filename_and_ext m link scrape_item of
        Inl e \<Rightarrow> (Some e, scrape_item, w)
      | Inr (filename, ext) \<Rightarrow>
          (handle_file m link scrape_item filename ext, scrape_item,
           emit (HandleFile link scrape_item filename ext) w))))))"

definition video_body :: "manager \<Rightarrow> handler" where
  "video_body = file_body sel_video"

definition other_body :: "manager \<Rightarrow> handler" where
  "other_body = file_body sel_other"

definition video :: "manager \<Rightarrow> handler" where
  "video m = error_handling_wrapper (video_body m)"

definition other :: "manager \<Rightarrow> handler" where
  "other m = error_handling_wrapper (other_body m)"

section \<open>The entry point\<close>

definition dispatch :: "manager \<Rightarrow> handler" where
  \<comment> \<open>the \<open>if\<close> statement of \<open>fetch\<close>\<close>
  "dispatch m scrape_item w =
     (if ''a'' \<in> set (url_parts (LIB m) (url scrape_item)) then album m scrape_item w
      else if ''v'' \<in> set (url_parts (LIB m) (url scrape_item)) then video m scrape_item w
      else other m scrape_item w)"

definition fetch :: "manager \<Rightarrow> handler" where
  \<comment> \<open>an exception of \<open>get_stream_link\<close> or \<open>set_cookies\<close> leaves \<open>fetch\<close> at once\<close>
  "fetch m scrape_item w =
     (case add_task (url scrape_item) w of (task_id, w) \<Rightarrow>
     (case get_stream_link (LIB m) (FILE_FORMATS m) (url scrape_item) of
        Inl e \<Rightarrow> (Some e, scrape_item, w)
      | Inr link \<Rightarrow>
          let scrape_item = scrape_item\<lparr>url := link\<rparr> in
     (case set_cookies m w of
        (Some e, w) \<Rightarrow> (Some e, scrape_item, w)
      | (None, w) \<Rightarrow>
     (case dispatch m scrape_item w of
        (Some e, scrape_item, w) \<Rightarrow> (Some e, scrape_item, w)
      | (None, scrape_item, w) \<Rightarrow> (None, scrape_item, remove_task task_id w)))))"

section \<open>Example inputs and notions used in the proofs\<close>


definition host_alphabet :: "char list" where
  "host_alphabet = CHR 0x0A # ''abcdefghijklmnopqrstuvwxyz0123456789-.''"




definition x_before_hyphen :: "string \<Rightarrow> bool" where
  "x_before_hyphen s =
     list_ex (\<lambda>k. CHR ''x'' \<in> set (take k s) \<and> CHR ''-'' \<in> set (drop k s)) [0 ..< Suc (length s)]"

definition example_formats :: file_formats where
  "example_formats = \<lparr>Images = {''.jpg'', ''.png''}, Videos = {''.mp4'', ''.mkv''}\<rparr>"

definition https :: "string \<Rightarrow> string \<Rightarrow> URL" where
  "https h p = \<lparr>scheme = ''https'', user = None, password = None, host = Some h,
               port = None, raw_path = p, query = [], fragment = []\<rparr>"

definition relative_url :: "string \<Rightarrow> URL" where
  "relative_url p = \<lparr>scheme = [], user = None, password = None, host = None,
               port = None, raw_path = p, query = [], fragment = []\<rparr>"

definition hex_value :: "char \<Rightarrow> nat option" where
  "hex_value c =
     (if c \<in> set ''0123456789'' then Some (of_char c - 48)
      else if c \<in> set ''ABCDEF'' then Some (of_char c - 55)
      else if c \<in> set ''abcdef'' then Some (of_char c - 87)
      else None)"

fun decode_escapes :: "string \<Rightarrow> string" where
  \<comment> \<open>every \<open>%XX\<close> replaced by the byte it stands for\<close>
  "decode_escapes (c # a # b # s) =
     (case (c = CHR ''%'', hex_value a, hex_value b) of
        (True, Some x, Some y) \<Rightarrow> char_of (16 * x + y) # decode_escapes s
      | _ \<Rightarrow> c # decode_escapes (a # b # s))"
| "decode_escapes s = s"

definition example_library :: library where
  \<comment> \<open>a library for the examples: escapes are decoded byte by byte, a text that is not
      plain is otherwise left as it is, and a text that is not ASCII is no date\<close>
  "example_library =
     \<lparr>lower_wide = (\<lambda>s. s), strip_wide = (\<lambda>s. s),
      strptime_wide = (\<lambda>s. Inl ValueError),
      unquote_escapes = decode_escapes, quote_unsafe = (\<lambda>s. s),
      encode_host_wide = (\<lambda>h. h)\<rparr>"

definition example_new_URL :: "string \<Rightarrow> error + URL" where
  \<comment> \<open>a parser of plain \<open>https\<close> URLs and of paths, in the place of yarl's in the examples\<close>
  "example_new_URL s =
     (if startswith s ''https://''
      then Inr (https (takeWhile (\<lambda>c. c \<noteq> CHR ''/'') (drop 8 s))
                      (dropWhile (\<lambda>c. c \<noteq> CHR ''/'') (drop 8 s)))
      else Inr (relative_url s))"

definition example_get_filename_and_ext :: "string \<Rightarrow> error + string \<times> string" where
  \<comment> \<open>in the examples: the name and its lower-case extension, if it has a dot\<close>
  "example_get_filename_and_ext name =
     (case rfind CHR ''.'' name of
        None \<Rightarrow> Inl NoExtensionFailure
      | Some i \<Rightarrow> Inr (name, lower example_library (drop i name)))"

definition example_manager ::
    "(string \<rightharpoonup> (string \<rightharpoonup> string option)) \<Rightarrow> (URL \<Rightarrow> error + soup) \<Rightarrow> manager" where
  "example_manager config pages =
     \<lparr>LIB = example_library,
      FILE_FORMATS = example_formats,
      authentication_data = config,
      get_BS4 = pages,
      create_title = (\<lambda>title album_id. title),
      sanitize_folder = map (\<lambda>c. if c = CHR ''/'' then CHR ''-'' else c),
      get_filename_and_ext = example_get_filename_and_ext,
      handle_file = (\<lambda>link scrape_item filename ext. None),
      new_URL = example_new_URL\<rparr>"

definition example_config :: "string \<rightharpoonup> (string \<rightharpoonup> string option)" where
  \<comment> \<open>all three keys present; the second value is empty\<close>
  "example_config =
     [''DDOS-Guard'' \<mapsto>
        [''bunkrr_ddg1'' \<mapsto> Some ''one'', ''bunkrr_ddg2'' \<mapsto> Some [],
         ''bunkrr_ddgid'' \<mapsto> Some ''id'']]"

definition config_without_ddg1 :: "string \<rightharpoonup> (string \<rightharpoonup> string option)" where
  "config_without_ddg1 =
     [''DDOS-Guard'' \<mapsto> [''bunkrr_ddg2'' \<mapsto> Some ''two'', ''bunkrr_ddgid'' \<mapsto> Some ''id'']]"

definition config_without_ddg2 :: "string \<rightharpoonup> (string \<rightharpoonup> string option)" where
  "config_without_ddg2 =
     [''DDOS-Guard'' \<mapsto> [''bunkrr_ddg1'' \<mapsto> Some ''one'', ''bunkrr_ddgid'' \<mapsto> Some ''id'']]"

definition no_pages :: "URL \<Rightarrow> error + soup" where
  "no_pages u = Inl (OtherFailure ''no such page'')"

definition new_world :: world where
  \<comment> \<open>a crawler just constructed: \<open>cookies_set = False\<close>, nothing called yet\<close>
  "new_world = \<lparr>cookies_set = False, next_task_id = 0, events = []\<rparr>"

definition cookie_updates :: "(string \<times> string option) list \<Rightarrow> event list" where
  \<comment> \<open>one \<open>update_cookies\<close> call for each pair whose value is neither \<open>None\<close> nor empty\<close>
  "cookie_updates named =
     [UpdateCookies name v ddos_guard_domain. (name, Some v) \<leftarrow> named, v \<noteq> []]"

definition file_page :: "string option list \<Rightarrow> soup" where
  \<comment> \<open>a file page on which both download selectors find the given anchors\<close>
  "file_page anchors =
     \<lparr>sel_title = None, sel_cards = [], sel_video = anchors, sel_other = anchors\<rparr>"

definition example_item :: "URL \<Rightarrow> ScrapeItem" where
  "example_item u =
     \<lparr>url = u, parent_title = ''Loose Files'', part_of_album = False,
      possible_datetime = None, retry = False, retry_path = None\<rparr>"

definition one_page :: "soup \<Rightarrow> URL \<Rightarrow> error + soup" where
  \<comment> \<open>a client that answers every request with the same parsed page\<close>
  "one_page p u = Inr p"

definition handler_body :: "manager \<Rightarrow> handler" where
  \<comment> \<open>the handler that \<open>dispatch\<close> selects, without its wrapper\<close>
  "handler_body m scrape_item w =
     (if ''a'' \<in> set (url_parts (LIB m) (url scrape_item)) then album_body m scrape_item w
      else if ''v'' \<in> set (url_parts (LIB m) (url scrape_item)) then video_body m scrape_item w
      else other_body m scrape_item w)"

fun is_progress :: "event \<Rightarrow> bool" where
  "is_progress (AddTask u task_id) = True"
| "is_progress (RemoveTask task_id) = True"
| "is_progress e = False"

definition progress_calls :: "world \<Rightarrow> event list" where
  \<comment> \<open>the calls made on the progress tracker so far\<close>
  "progress_calls w = filter is_progress (events w)"

fun is_failure :: "event \<Rightarrow> bool" where
  "is_failure (LogFailure u e) = True"
| "is_failure e = False"

definition failures :: "world \<Rightarrow> event list" where
  \<comment> \<open>the failures logged so far, each with the URL it was logged for\<close>
  "failures w = filter is_failure (events w)"

definition digit_char :: "nat \<Rightarrow> char" where
  "digit_char k = ''0123456789'' ! k"

definition show2 :: "nat \<Rightarrow> string" where
  \<comment> \<open>a number below 100 in two digits\<close>
  "show2 n = [digit_char (n div 10), digit_char (n mod 10)]"

definition show4 :: "nat \<Rightarrow> string" where
  \<comment> \<open>a number below 10000 in four digits\<close>
  "show4 n = [digit_char (n div 1000), digit_char (n div 100 mod 10),
              digit_char (n div 10 mod 10), digit_char (n mod 10)]"

definition leap_year :: "nat \<Rightarrow> bool" where
  "leap_year y = (4 dvd y \<and> (\<not> 100 dvd y \<or> 400 dvd y))"

definition year_days :: "nat \<Rightarrow> nat" where
  "year_days y = (if leap_year y then 366 else 365)"

definition month_days :: "nat \<Rightarrow> nat \<Rightarrow> nat" where
  "month_days y m =
     (if m = 2 then (if leap_year y then 29 else 28)
      else if m = 4 \<or> m = 6 \<or> m = 9 \<or> m = 11 then 30
      else 31)"

definition days_since_epoch :: "nat \<Rightarrow> nat \<Rightarrow> nat \<Rightarrow> int" where
  \<comment> \<open>the days from 1 January 1970 to the given day of the Gregorian calendar, counted
      year by year and month by month\<close>
  "days_since_epoch y m d =
     (if 1970 \<le> y then int (sum_list (map year_days [1970 ..< y]))
      else - int (sum_list (map year_days [y ..< 1970])))
     + int (sum_list (map (month_days y) [1 ..< m])) + int d - 1"

definition unix_epoch :: "nat \<Rightarrow> nat \<Rightarrow> nat \<Rightarrow> nat \<Rightarrow> nat \<Rightarrow> nat \<Rightarrow> int" where
  \<comment> \<open>the seconds from 1970-01-01T00:00:00Z to the given UTC time\<close>
  "unix_epoch y m d hour minute second =
     days_since_epoch y m d * 86400 + int hour * 3600 + int minute * 60 + int second"

fun maxlen :: "regex \<Rightarrow> nat" where
  \<comment> \<open>a bound on the number of characters a match consumes\<close>
  "maxlen Eps = 0"
| "maxlen (Cls cs) = 1"
| "maxlen (Seq a b) = maxlen a + maxlen b"
| "maxlen (Alt a b) = max (maxlen a) (maxlen b)"

definition first_is :: "'a \<Rightarrow> 'a list \<Rightarrow> bool" where
  "first_is x xs = (case xs of [] \<Rightarrow> False | y # ys \<Rightarrow> y = x)"







section \<open>Properties\<close>







lemma i_host_alphabet: "CHR ''i'' \<in> set host_alphabet"
  by code_simp






















lemma rfind_bound: "rfind c s = Some i \<Longrightarrow> i < length s"
  by (induction s arbitrary: i) (auto split: option.splits if_splits)



lemma normalize_segments_plain:
  "\<forall>seg \<in> set segs. seg \<noteq> ''.'' \<and> seg \<noteq> ''..'' \<Longrightarrow>
   normalize_segments segs acc = acc @ segs"
  by (induction segs arbitrary: acc) auto












text \<open>
  Claim C10. For a URL without a host (a relative URL) \<open>get_stream_link\<close> does not give the
  URL back: the match of the host pattern against \<open>None\<close> raises \<open>TypeError\<close>.
\<close>

theorem get_stream_link_no_host:
  "host u = None \<Longrightarrow> get_stream_link lib ff u = Inl TypeError"
  by (simp add: get_stream_link_def)

theorem get_stream_link_no_host_witness:
  "get_stream_link example_library example_formats (relative_url ''/a/abc'') = Inl TypeError"
  using get_stream_link_no_host [of "relative_url ''/a/abc''" example_library example_formats]
  by (simp add: relative_url_def)




lemma get_stream_link_escaped_slash:
  "get_stream_link example_library example_formats (https ''cdn12.bunkr.ru'' ''/a%2Fb.mp4'')
     = Inr (primary_base_domain\<lparr>raw_path := ''/v/a/b.mp4''\<rparr>)"
  by code_simp

text \<open>
  Claim C3. \<open>add_to_parent_title\<close> leaves the item as it is when the item is a retry or the
  title is empty; otherwise it changes \<open>parent_title\<close> only, to the sanitized title when the
  old parent title is empty and to the old one, a slash and the sanitized title when not.
\<close>

theorem add_to_parent_title_spec:
  "add_to_parent_title f s t =
     (if retry s \<or> t = [] then s
      else s\<lparr>parent_title := (if parent_title s = [] then f t else parent_title s @ ''/'' @ f t)\<rparr>)"
  by (simp add: add_to_parent_title_def Let_def)

theorem add_to_parent_title_witness:
  "add_to_parent_title (map (\<lambda>c. if c = CHR ''/'' then CHR ''-'' else c))
     \<lparr>url = https ''bunkrr.su'' ''/a/xyz'', parent_title = ''Loose Files'', part_of_album = False,
      possible_datetime = None, retry = False, retry_path = None\<rparr> ''a/b''
   = \<lparr>url = https ''bunkrr.su'' ''/a/xyz'', parent_title = ''Loose Files/a-b'', part_of_album = False,
      possible_datetime = None, retry = False, retry_path = None\<rparr>"
  using add_to_parent_title_spec
    [of "map (\<lambda>c. if c = CHR ''/'' then CHR ''-'' else c)"
        "\<lparr>url = https ''bunkrr.su'' ''/a/xyz'', parent_title = ''Loose Files'',
          part_of_album = False, possible_datetime = None, retry = False, retry_path = None\<rparr>"
        "''a/b''"]
  by simp

lemma set_cookie_present:
  assumes "authentication_data m ''DDOS-Guard'' = Some sec" and "sec key = Some v"
  shows "set_cookie m key name w = (None, w\<lparr>events := events w @ cookie_updates [(name, v)]\<rparr>)"
  using assms
  by (cases v) (simp_all add: set_cookie_def ddos_guard_def emit_def cookie_updates_def)

lemma set_cookie_no_section:
  assumes "authentication_data m ''DDOS-Guard'' = None"
  shows "set_cookie m key name w = (Some KeyError, w)"
  using assms by (simp add: set_cookie_def ddos_guard_def)

lemma set_cookie_absent:
  assumes "authentication_data m ''DDOS-Guard'' = Some sec" and "sec key = None"
  shows "set_cookie m key name w = (Some KeyError, w)"
  using assms by (simp add: set_cookie_def ddos_guard_def)

lemma cookie_updates_append:
  "cookie_updates (xs @ ys) = cookie_updates xs @ cookie_updates ys"
  by (simp add: cookie_updates_def)

text \<open>
  Claim C6, as amended. Once a call of \<open>set_cookies\<close> has returned, \<open>cookies_set\<close> holds and
  every later call on the same crawler, whatever the configuration then says, returns
  without any effect. In a call on a crawler whose cookies are not set, with the three
  keys present in the \<open>DDOS-Guard\<close> section, each value that is \<open>None\<close> or empty is skipped
  on its own and each other value is sent to the cookie store, in the order
  \<open>__ddg1_\<close>, \<open>__ddg2_\<close>, \<open>__ddgid_\<close>, for the wildcard domain. A key that is absent is
  not skipped: in such a call the first of the section and the keys \<open>bunkrr_ddg1\<close>,
  \<open>bunkrr_ddg2\<close>, \<open>bunkrr_ddgid\<close> that is absent raises \<open>KeyError\<close>, after the values of
  the keys before it have been sent and before \<open>cookies_set\<close> is set.
\<close>

theorem set_cookies_once:
  "(cookies_set w \<longrightarrow> set_cookies m w = (None, w))
   \<and> (set_cookies m w = (None, w') \<longrightarrow> cookies_set w' \<and> set_cookies m' w' = (None, w'))
   \<and> (\<not> cookies_set w \<and> authentication_data m ''DDOS-Guard'' = Some sec
        \<and> sec ''bunkrr_ddg1'' = Some v1 \<and> sec ''bunkrr_ddg2'' = Some v2
        \<and> sec ''bunkrr_ddgid'' = Some v3 \<longrightarrow>
      set_cookies m w =
        (None, w\<lparr>cookies_set := True,
                 events := events w @
                   cookie_updates [(''__ddg1_'', v1), (''__ddg2_'', v2), (''__ddgid_'', v3)]\<rparr>))
   \<and> (\<not> cookies_set w \<longrightarrow>
      set_cookies m w =
        (case authentication_data m ''DDOS-Guard'' of
           None \<Rightarrow> (Some KeyError, w)
         | Some section \<Rightarrow>
        (case section ''bunkrr_ddg1'' of
           None \<Rightarrow> (Some KeyError, w)
         | Some a \<Rightarrow>
        (case section ''bunkrr_ddg2'' of
           None \<Rightarrow>
             (Some KeyError, w\<lparr>events := events w @ cookie_updates [(''__ddg1_'', a)]\<rparr>)
         | Some b \<Rightarrow>
        (case section ''bunkrr_ddgid'' of
           None \<Rightarrow>
             (Some KeyError,
              w\<lparr>events := events w @ cookie_updates [(''__ddg1_'', a), (''__ddg2_'', b)]\<rparr>)
         | Some c \<Rightarrow>
             (None,
              w\<lparr>cookies_set := True,
                events := events w @
                  cookie_updates [(''__ddg1_'', a), (''__ddg2_'', b), (''__ddgid_'', c)]\<rparr>))))))"
proof -
  have guard: "cookies_set w \<longrightarrow> set_cookies m w = (None, w)"
    by (simp add: set_cookies_def)
  have again: "set_cookies m w = (None, w') \<longrightarrow> cookies_set w' \<and> set_cookies m' w' = (None, w')"
  proof
    assume r: "set_cookies m w = (None, w')"
    have c: "cookies_set w'"
      using r unfolding set_cookies_def
      by (auto split: if_splits prod.splits option.splits)
    then show "cookies_set w' \<and> set_cookies m' w' = (None, w')"
      by (simp add: set_cookies_def)
  qed
  have u2: "\<And>a b. cookie_updates [(''__ddg1_'', a), (''__ddg2_'', b)] =
        cookie_updates [(''__ddg1_'', a)] @ cookie_updates [(''__ddg2_'', b)]"
    by (simp add: cookie_updates_append[symmetric])
  have u3: "\<And>a b c. cookie_updates [(''__ddg1_'', a), (''__ddg2_'', b), (''__ddgid_'', c)] =
        cookie_updates [(''__ddg1_'', a)] @ cookie_updates [(''__ddg2_'', b)]
          @ cookie_updates [(''__ddgid_'', c)]"
    by (simp add: cookie_updates_append[symmetric])
  have pass: "\<not> cookies_set w \<longrightarrow>
      set_cookies m w =
        (case authentication_data m ''DDOS-Guard'' of
           None \<Rightarrow> (Some KeyError, w)
         | Some section \<Rightarrow>
        (case section ''bunkrr_ddg1'' of
           None \<Rightarrow> (Some KeyError, w)
         | Some a \<Rightarrow>
        (case section ''bunkrr_ddg2'' of
           None \<Rightarrow>
             (Some KeyError, w\<lparr>events := events w @ cookie_updates [(''__ddg1_'', a)]\<rparr>)
         | Some b \<Rightarrow>
        (case section ''bunkrr_ddgid'' of
           None \<Rightarrow>
             (Some KeyError,
              w\<lparr>events := events w @ cookie_updates [(''__ddg1_'', a), (''__ddg2_'', b)]\<rparr>)
         | Some c \<Rightarrow>
             (None,
              w\<lparr>cookies_set := True,
                events := events w @
                  cookie_updates [(''__ddg1_'', a), (''__ddg2_'', b), (''__ddgid_'', c)]\<rparr>)))))"
  proof
    assume n: "\<not> cookies_set w"
    show "set_cookies m w =
        (case authentication_data m ''DDOS-Guard'' of
           None \<Rightarrow> (Some KeyError, w)
         | Some section \<Rightarrow>
        (case section ''bunkrr_ddg1'' of
           None \<Rightarrow> (Some KeyError, w)
         | Some a \<Rightarrow>
        (case section ''bunkrr_ddg2'' of
           None \<Rightarrow>
             (Some KeyError, w\<lparr>events := events w @ cookie_updates [(''__ddg1_'', a)]\<rparr>)
         | Some b \<Rightarrow>
        (case section ''bunkrr_ddgid'' of
           None \<Rightarrow>
             (Some KeyError,
              w\<lparr>events := events w @ cookie_updates [(''__ddg1_'', a), (''__ddg2_'', b)]\<rparr>)
         | Some c \<Rightarrow>
             (None,
              w\<lparr>cookies_set := True,
                events := events w @
                  cookie_updates [(''__ddg1_'', a), (''__ddg2_'', b), (''__ddgid_'', c)]\<rparr>)))))"
    proof (cases "authentication_data m ''DDOS-Guard''")
      case None
      then show ?thesis using n by (simp add: set_cookies_def set_cookie_no_section)
    next
      case (Some sec)
      note s = Some
      show ?thesis
      proof (cases "sec ''bunkrr_ddg1''")
        case None
        then show ?thesis using n s by (simp add: set_cookies_def set_cookie_absent[OF s])
      next
        case (Some a)
        note k1 = Some
        show ?thesis
        proof (cases "sec ''bunkrr_ddg2''")
          case None
          then show ?thesis
            using n s k1
            by (simp add: set_cookies_def set_cookie_present[OF s k1] set_cookie_absent[OF s])
        next
          case (Some b)
          note k2 = Some
          show ?thesis
          proof (cases "sec ''bunkrr_ddgid''")
            case None
            then show ?thesis
              unfolding u2 using n s k1 k2
              by (simp add: set_cookies_def set_cookie_present[OF s k1]
                  set_cookie_present[OF s k2] set_cookie_absent[OF s])
          next
            case (Some c)
            then show ?thesis
              unfolding u3 using n s k1 k2
              by (simp add: set_cookies_def set_cookie_present[OF s k1]
                  set_cookie_present[OF s k2] set_cookie_present[OF s Some])
          qed
        qed
      qed
    qed
  qed
  have first: "\<not> cookies_set w \<and> authentication_data m ''DDOS-Guard'' = Some sec
        \<and> sec ''bunkrr_ddg1'' = Some v1 \<and> sec ''bunkrr_ddg2'' = Some v2
        \<and> sec ''bunkrr_ddgid'' = Some v3 \<longrightarrow>
      set_cookies m w =
        (None, w\<lparr>cookies_set := True,
                 events := events w @
                   cookie_updates [(''__ddg1_'', v1), (''__ddg2_'', v2), (''__ddgid_'', v3)]\<rparr>)"
    using pass by simp
  from guard again first pass show ?thesis by (intro conjI)
qed

theorem set_cookies_once_witness:
  "set_cookies (example_manager example_config no_pages) new_world =
     (None, \<lparr>cookies_set = True, next_task_id = 0,
             events = [UpdateCookies ''__ddg1_'' ''one'' ddos_guard_domain,
                       UpdateCookies ''__ddgid_'' ''id'' ddos_guard_domain]\<rparr>)
   \<and> set_cookies (example_manager config_without_ddg1 no_pages)
       \<lparr>cookies_set = True, next_task_id = 0,
        events = [UpdateCookies ''__ddg1_'' ''one'' ddos_guard_domain,
                  UpdateCookies ''__ddgid_'' ''id'' ddos_guard_domain]\<rparr> =
     (None, \<lparr>cookies_set = True, next_task_id = 0,
             events = [UpdateCookies ''__ddg1_'' ''one'' ddos_guard_domain,
                       UpdateCookies ''__ddgid_'' ''id'' ddos_guard_domain]\<rparr>)
   \<and> set_cookies (example_manager config_without_ddg2 no_pages) new_world =
     (Some KeyError, \<lparr>cookies_set = False, next_task_id = 0,
             events = [UpdateCookies ''__ddg1_'' ''one'' ddos_guard_domain]\<rparr>)"
proof -
  let ?m = "example_manager example_config no_pages"
  let ?sec = "[''bunkrr_ddg1'' \<mapsto> Some ''one'', ''bunkrr_ddg2'' \<mapsto> Some [],
               ''bunkrr_ddgid'' \<mapsto> Some ''id'']"
  let ?w = "\<lparr>cookies_set = True, next_task_id = 0,
             events = [UpdateCookies ''__ddg1_'' ''one'' ddos_guard_domain,
                       UpdateCookies ''__ddgid_'' ''id'' ddos_guard_domain]\<rparr>"
  have a: "authentication_data ?m ''DDOS-Guard'' = Some ?sec"
    by (simp add: example_manager_def example_config_def)
  have first: "set_cookies ?m new_world = (None, ?w)"
    using set_cookies_once [of new_world ?m _ _ ?sec "Some ''one''" "Some []" "Some ''id''"] a
    by (simp add: new_world_def cookie_updates_def)
  have again: "set_cookies (example_manager config_without_ddg1 no_pages) ?w = (None, ?w)"
    using set_cookies_once [of new_world ?m ?w "example_manager config_without_ddg1 no_pages"] first
    by simp
  have absent: "set_cookies (example_manager config_without_ddg2 no_pages) new_world =
     (Some KeyError, \<lparr>cookies_set = False, next_task_id = 0,
             events = [UpdateCookies ''__ddg1_'' ''one'' ddos_guard_domain]\<rparr>)"
    using set_cookies_once [of new_world "example_manager config_without_ddg2 no_pages"]
    by (simp add: new_world_def cookie_updates_def example_manager_def config_without_ddg2_def)
  from first again absent show ?thesis by (intro conjI)
qed

text \<open>
  Claim C6 as stated fails for a value that is missing from the configuration: without
  the key \<open>bunkrr_ddg1\<close> the first lookup raises \<open>KeyError\<close>, the two values that are there
  are not sent to the cookie store, and \<open>cookies_set\<close> stays false, so that the next call
  starts the pass again.
\<close>

theorem set_cookies_missing_key_counterexample:
  "set_cookies (example_manager config_without_ddg1 no_pages) new_world
     = (Some KeyError, new_world)"
  by (simp add: set_cookies_def set_cookie_def ddos_guard_def example_manager_def
      config_without_ddg1_def new_world_def)

lemma file_body_reaches_names:
  assumes "get_BS4 m (url si) = Inr page" and "select page \<noteq> []"
    and "last (select page) = Some href" and "new_URL m href = Inr link"
  shows "file_body select m si w =
     (case filename_and_ext m link si of
        Inl e \<Rightarrow> (Some e, si, w)
      | Inr (filename, ext) \<Rightarrow>
          (handle_file m link si filename ext, si, emit (HandleFile link si filename ext) w))"
  using assms by (cases "select page") (simp_all add: file_body_def)

text \<open>
  Claim C8, as amended. In \<open>video\<close> and in \<open>other\<close>, once the page is fetched and the last
  download anchor gives the direct link: if \<open>get_filename_and_ext\<close> raises
  \<open>NoExtensionFailure\<close> on the link's name, the exception is not logged and the name of the
  item's URL is tried in its place; when that second call returns, the file goes to
  \<open>handle_file\<close> with the names it gave, and when it raises (\<open>NoExtensionFailure\<close> too) the
  handler fails with that exception and \<open>handle_file\<close> is not called. Any other exception of
  the first call fails the handler at once, without a second call.
\<close>

theorem filename_fallback:
  assumes "(handler = video \<and> select = sel_video) \<or> (handler = other \<and> select = sel_other)"
    and "get_BS4 m (url si) = Inr page" and "select page \<noteq> []"
    and "last (select page) = Some href" and "new_URL m href = Inr link"
  shows "(get_filename_and_ext m (url_name (LIB m) link) = Inl NoExtensionFailure \<longrightarrow>
            handler m si w =
              (None, si,
               case get_filename_and_ext m (url_name (LIB m) (url si)) of
                 Inr (filename, ext) \<Rightarrow>
                   (case handle_file m link si filename ext of
                      None \<Rightarrow> emit (HandleFile link si filename ext) w
                    | Some e \<Rightarrow>
                        emit (LogFailure (url si) e) (emit (HandleFile link si filename ext) w))
               | Inl e \<Rightarrow> emit (LogFailure (url si) e) w))
         \<and> (\<forall>e. e \<noteq> NoExtensionFailure \<and> get_filename_and_ext m (url_name (LIB m) link) = Inl e \<longrightarrow>
              handler m si w = (None, si, emit (LogFailure (url si) e) w))"
proof -
  have h: "handler m = error_handling_wrapper (file_body select m)"
    using assms(1) by (auto simp: video_def other_def video_body_def other_body_def)
  have b: "file_body select m si w =
     (case filename_and_ext m link si of
        Inl e \<Rightarrow> (Some e, si, w)
      | Inr (filename, ext) \<Rightarrow>
          (handle_file m link si filename ext, si, emit (HandleFile link si filename ext) w))"
    using assms(2-5) by (rule file_body_reaches_names)
  have fallback: "get_filename_and_ext m (url_name (LIB m) link) = Inl NoExtensionFailure \<longrightarrow>
            handler m si w =
              (None, si,
               case get_filename_and_ext m (url_name (LIB m) (url si)) of
                 Inr (filename, ext) \<Rightarrow>
                   (case handle_file m link si filename ext of
                      None \<Rightarrow> emit (HandleFile link si filename ext) w
                    | Some e \<Rightarrow>
                        emit (LogFailure (url si) e) (emit (HandleFile link si filename ext) w))
               | Inl e \<Rightarrow> emit (LogFailure (url si) e) w)"
    unfolding h error_handling_wrapper_def b filename_and_ext_def Let_def
    by (auto split: sum.splits option.splits prod.splits)
  have others: "\<forall>e. e \<noteq> NoExtensionFailure \<and> get_filename_and_ext m (url_name (LIB m) link) = Inl e \<longrightarrow>
              handler m si w = (None, si, emit (LogFailure (url si) e) w)"
    unfolding h error_handling_wrapper_def b filename_and_ext_def Let_def
    by (auto split: sum.splits option.splits prod.splits error.splits)
  from fallback others show ?thesis by (rule conjI)
qed

theorem filename_fallback_witness:
  "video (example_manager example_config
            (one_page (file_page [Some ''https://media-files.bunkr.ru/clip-token''])))
         (example_item (https ''bunkrr.su'' ''/v/clip.mp4'')) new_world =
     (None, example_item (https ''bunkrr.su'' ''/v/clip.mp4''),
      \<lparr>cookies_set = False, next_task_id = 0,
       events = [HandleFile (https ''media-files.bunkr.ru'' ''/clip-token'')
                   (example_item (https ''bunkrr.su'' ''/v/clip.mp4''))
                   ''clip.mp4'' ''.mp4'']\<rparr>)"
proof -
  let ?page = "file_page [Some ''https://media-files.bunkr.ru/clip-token'']"
  let ?m = "example_manager example_config (one_page ?page)"
  let ?si = "example_item (https ''bunkrr.su'' ''/v/clip.mp4'')"
  let ?link = "https ''media-files.bunkr.ru'' ''/clip-token''"
  have p: "get_BS4 ?m (url ?si) = Inr ?page"
    by (simp add: example_manager_def one_page_def)
  have s: "sel_video ?page \<noteq> []" by (simp add: file_page_def)
  have l: "last (sel_video ?page) = Some ''https://media-files.bunkr.ru/clip-token''"
    by (simp add: file_page_def)
  have u: "new_URL ?m ''https://media-files.bunkr.ru/clip-token'' = Inr ?link"
    unfolding example_manager_def by code_simp
  have n1: "get_filename_and_ext ?m (url_name (LIB ?m) ?link) = Inl NoExtensionFailure"
    unfolding example_manager_def by code_simp
  have n2: "get_filename_and_ext ?m (url_name (LIB ?m) (url ?si)) = Inr (''clip.mp4'', ''.mp4'')"
    unfolding example_manager_def by code_simp
  have hf: "handle_file ?m ?link ?si ''clip.mp4'' ''.mp4'' = None"
    by (simp add: example_manager_def)
  show ?thesis
    using filename_fallback [of video sel_video ?m ?si ?page _ ?link new_world, OF _ p s l u]
      n1 n2 hf
    by (simp add: emit_def new_world_def)
qed

text \<open>
  Claim C8 as stated fails when the name of the item's URL has no extension either: the
  second call raises \<open>NoExtensionFailure\<close>, the handler fails with it and the file is not
  handed to \<open>handle_file\<close>.
\<close>

theorem filename_fallback_counterexample:
  "video (example_manager example_config
            (one_page (file_page [Some ''https://media-files.bunkr.ru/clip-token''])))
         (example_item (https ''bunkrr.su'' ''/v/clip'')) new_world =
     (None, example_item (https ''bunkrr.su'' ''/v/clip''),
      \<lparr>cookies_set = False, next_task_id = 0,
       events = [LogFailure (https ''bunkrr.su'' ''/v/clip'') NoExtensionFailure]\<rparr>)"
  by code_simp

lemma dispatch_wrapper: "dispatch m si w = error_handling_wrapper (handler_body m) si w"
  by (simp add: dispatch_def handler_body_def album_def video_def other_def
      error_handling_wrapper_def)

lemma wrapper_result:
  assumes "func si w = (r, si', w')"
  shows "error_handling_wrapper func si w =
           (None, si', case r of None \<Rightarrow> w' | Some e \<Rightarrow> emit (LogFailure (url si) e) w')"
  using assms by (cases r) (simp_all add: error_handling_wrapper_def)

lemma add_task_result:
  "add_task u w = (next_task_id w, emit (AddTask u (next_task_id w)) (w\<lparr>next_task_id := Suc (next_task_id w)\<rparr>))"
  by (simp add: add_task_def)

lemma progress_calls_emit:
  "progress_calls (emit e w) = progress_calls w @ (if is_progress e then [e] else [])"
  by (simp add: progress_calls_def emit_def)

lemma set_cookie_progress: "progress_calls (snd (set_cookie m key name w)) = progress_calls w"
  by (simp add: set_cookie_def progress_calls_emit split: sum.splits option.splits)

lemma set_cookies_progress: "progress_calls (snd (set_cookies m w)) = progress_calls w"
proof -
  have upd: "\<And>x. progress_calls (x\<lparr>cookies_set := True\<rparr>) = progress_calls x"
    by (simp add: progress_calls_def)
  have one: "\<And>key name x e y. set_cookie m key name x = (e, y) \<Longrightarrow> progress_calls y = progress_calls x"
    using set_cookie_progress by (metis snd_conv)
  show ?thesis
    unfolding set_cookies_def
    by (auto split: prod.splits option.splits simp: upd dest!: one)
qed

lemma album_listing_progress:
  "progress_calls (snd (album_listing m si cards w)) = progress_calls w"
  by (induction cards arbitrary: w) (auto simp: progress_calls_emit split: sum.splits)

lemma album_body_progress: "progress_calls (snd (snd (album_body m si w))) = progress_calls w"
  unfolding album_body_def Let_def
  using album_listing_progress
  by (auto split: sum.splits option.splits list.splits prod.splits) (metis snd_conv)

lemma file_body_progress:
  "progress_calls (snd (snd (file_body select m si w))) = progress_calls w"
  unfolding file_body_def
  by (auto split: sum.splits option.splits list.splits prod.splits simp: progress_calls_emit)

lemma handler_body_progress:
  "progress_calls (snd (snd (handler_body m si w))) = progress_calls w"
  by (simp add: handler_body_def album_body_progress file_body_progress video_body_def
      other_body_def)

lemma failures_emit:
  "failures (emit e w) = failures w @ (if is_failure e then [e] else [])"
  by (simp add: failures_def emit_def)

lemma set_cookie_failures: "failures (snd (set_cookie m key name w)) = failures w"
  by (simp add: set_cookie_def failures_emit split: sum.splits option.splits)

lemma set_cookies_failures: "failures (snd (set_cookies m w)) = failures w"
proof -
  have upd: "\<And>x. failures (x\<lparr>cookies_set := True\<rparr>) = failures x"
    by (simp add: failures_def)
  have one: "\<And>key name x e y. set_cookie m key name x = (e, y) \<Longrightarrow> failures y = failures x"
    using set_cookie_failures by (metis snd_conv)
  show ?thesis
    unfolding set_cookies_def
    by (auto split: prod.splits option.splits simp: upd dest!: one)
qed

lemma album_listing_failures:
  "failures (snd (album_listing m si cards w)) = failures w"
  by (induction cards arbitrary: w) (auto simp: failures_emit split: sum.splits)

lemma album_body_failures: "failures (snd (snd (album_body m si w))) = failures w"
  unfolding album_body_def Let_def
  using album_listing_failures
  by (auto split: sum.splits option.splits list.splits prod.splits) (metis snd_conv)

lemma file_body_failures:
  "failures (snd (snd (file_body select m si w))) = failures w"
  unfolding file_body_def
  by (auto split: sum.splits option.splits list.splits prod.splits simp: failures_emit)

lemma handler_body_failures:
  "failures (snd (snd (handler_body m si w))) = failures w"
  by (simp add: handler_body_def album_body_failures file_body_failures video_body_def
      other_body_def)

text \<open>
  Claim C1, as amended. \<open>fetch\<close> raises to its caller exactly when \<open>get_stream_link\<close> or
  \<open>set_cookies\<close>, which it calls outside of any wrapper, raises, and then it logs no
  failure. Once both have returned, whatever the selected handler does, \<open>fetch\<close> returns:
  an exception of the handler is caught by the handler's wrapper and logged before the
  task is removed. Over the whole call the log of failures grows by exactly one entry,
  for the URL of the item and the exception, when the body of the selected handler raises,
  and by none on every other path: neither \<open>set_cookies\<close> nor the body of a handler logs
  a failure by itself, and none is logged for another item.
\<close>

theorem fetch_propagation:
  "(get_stream_link (LIB m) (FILE_FORMATS m) (url si) = Inl e \<longrightarrow>
      fetch m si w = (Some e, si, snd (add_task (url si) w)))
   \<and> (get_stream_link (LIB m) (FILE_FORMATS m) (url si) = Inr link
        \<and> set_cookies m (snd (add_task (url si) w)) = (Some e, w2) \<longrightarrow>
      fetch m si w = (Some e, si\<lparr>url := link\<rparr>, w2))
   \<and> (get_stream_link (LIB m) (FILE_FORMATS m) (url si) = Inr link
        \<and> set_cookies m (snd (add_task (url si) w)) = (None, w2)
        \<and> handler_body m (si\<lparr>url := link\<rparr>) w2 = (r, si', w3) \<longrightarrow>
      fetch m si w =
        (None, si',
         remove_task (next_task_id w)
           (case r of None \<Rightarrow> w3 | Some e \<Rightarrow> emit (LogFailure link e) w3)))
   \<and> failures (snd (snd (fetch m si w))) =
       failures w @
       (case get_stream_link (LIB m) (FILE_FORMATS m) (url si) of
          Inl e \<Rightarrow> []
        | Inr link \<Rightarrow>
            (case set_cookies m (snd (add_task (url si) w)) of
               (Some e, w2) \<Rightarrow> []
             | (None, w2) \<Rightarrow>
                 (case fst (handler_body m (si\<lparr>url := link\<rparr>) w2) of
                    None \<Rightarrow> []
                  | Some e \<Rightarrow> [LogFailure link e])))"
proof -
  have a: "get_stream_link (LIB m) (FILE_FORMATS m) (url si) = Inl e \<longrightarrow>
      fetch m si w = (Some e, si, snd (add_task (url si) w))"
    by (simp add: fetch_def add_task_result)
  have b: "get_stream_link (LIB m) (FILE_FORMATS m) (url si) = Inr link
        \<and> set_cookies m (snd (add_task (url si) w)) = (Some e, w2) \<longrightarrow>
      fetch m si w = (Some e, si\<lparr>url := link\<rparr>, w2)"
    by (simp add: fetch_def add_task_result)
  have run: "\<And>link w2 r si' w3.
      get_stream_link (LIB m) (FILE_FORMATS m) (url si) = Inr link
        \<and> set_cookies m (snd (add_task (url si) w)) = (None, w2)
        \<and> handler_body m (si\<lparr>url := link\<rparr>) w2 = (r, si', w3) \<Longrightarrow>
      fetch m si w =
        (None, si',
         remove_task (next_task_id w)
           (case r of None \<Rightarrow> w3 | Some e \<Rightarrow> emit (LogFailure link e) w3))"
  proof -
    fix link w2 r si' w3
    assume h: "get_stream_link (LIB m) (FILE_FORMATS m) (url si) = Inr link
        \<and> set_cookies m (snd (add_task (url si) w)) = (None, w2)
        \<and> handler_body m (si\<lparr>url := link\<rparr>) w2 = (r, si', w3)"
    then have d: "dispatch m (si\<lparr>url := link\<rparr>) w2 =
        (None, si', case r of None \<Rightarrow> w3 | Some e \<Rightarrow> emit (LogFailure link e) w3)"
      using wrapper_result[of "handler_body m" "si\<lparr>url := link\<rparr>" w2 r si' w3]
      by (cases r) (simp_all add: dispatch_wrapper)
    show "fetch m si w =
        (None, si',
         remove_task (next_task_id w)
           (case r of None \<Rightarrow> w3 | Some e \<Rightarrow> emit (LogFailure link e) w3))"
      using h d by (simp add: fetch_def add_task_result)
  qed
  have c: "get_stream_link (LIB m) (FILE_FORMATS m) (url si) = Inr link
        \<and> set_cookies m (snd (add_task (url si) w)) = (None, w2)
        \<and> handler_body m (si\<lparr>url := link\<rparr>) w2 = (r, si', w3) \<longrightarrow>
      fetch m si w =
        (None, si',
         remove_task (next_task_id w)
           (case r of None \<Rightarrow> w3 | Some e \<Rightarrow> emit (LogFailure link e) w3))"
    using run by blast
  let ?w1 = "snd (add_task (url si) w)"
  have f1: "failures ?w1 = failures w"
    by (simp add: add_task_result failures_def emit_def)
  have d: "failures (snd (snd (fetch m si w))) =
       failures w @
       (case get_stream_link (LIB m) (FILE_FORMATS m) (url si) of
          Inl e \<Rightarrow> []
        | Inr link \<Rightarrow>
            (case set_cookies m (snd (add_task (url si) w)) of
               (Some e, w2) \<Rightarrow> []
             | (None, w2) \<Rightarrow>
                 (case fst (handler_body m (si\<lparr>url := link\<rparr>) w2) of
                    None \<Rightarrow> []
                  | Some e \<Rightarrow> [LogFailure link e])))"
  proof (cases "get_stream_link (LIB m) (FILE_FORMATS m) (url si)")
    case (Inl x)
    then show ?thesis using f1 by (simp add: fetch_def add_task_result)
  next
    case (Inr l)
    obtain k v2 where sc: "set_cookies m ?w1 = (k, v2)" by (cases "set_cookies m ?w1")
    have f2: "failures v2 = failures w"
      using set_cookies_failures[of m ?w1] sc f1 by simp
    show ?thesis
    proof (cases k)
      case (Some x)
      then have "fetch m si w = (Some x, si\<lparr>url := l\<rparr>, v2)"
        using Inr sc by (simp add: fetch_def add_task_result)
      then show ?thesis using Inr sc Some f2 by simp
    next
      case None
      obtain q s3 v3 where hb: "handler_body m (si\<lparr>url := l\<rparr>) v2 = (q, s3, v3)"
        by (cases "handler_body m (si\<lparr>url := l\<rparr>) v2")
      have f3: "failures v3 = failures w"
        using handler_body_failures[of m "si\<lparr>url := l\<rparr>" v2] hb f2 by simp
      have "fetch m si w =
        (None, s3,
         remove_task (next_task_id w)
           (case q of None \<Rightarrow> v3 | Some e \<Rightarrow> emit (LogFailure l e) v3))"
        using run[of l v2 q s3 v3] Inr sc None hb by simp
      then show ?thesis
        using Inr sc None hb f3
        by (cases q) (simp_all add: remove_task_def failures_emit)
    qed
  qed
  from a b c d show ?thesis by (intro conjI)
qed

theorem fetch_propagation_witness:
  "fetch (example_manager example_config no_pages)
         (example_item (https ''bunkrr.su'' ''/a/abc'')) new_world =
     (None, example_item (https ''bunkrr.su'' ''/a/abc''),
      \<lparr>cookies_set = True, next_task_id = 1,
       events = [AddTask (https ''bunkrr.su'' ''/a/abc'') 0,
                 UpdateCookies ''__ddg1_'' ''one'' ddos_guard_domain,
                 UpdateCookies ''__ddgid_'' ''id'' ddos_guard_domain,
                 LogFailure (https ''bunkrr.su'' ''/a/abc'') (OtherFailure ''no such page''),
                 RemoveTask 0]\<rparr>)
   \<and> failures (snd (snd (fetch (example_manager example_config no_pages)
         (example_item (https ''bunkrr.su'' ''/a/abc'')) new_world))) =
     [LogFailure (https ''bunkrr.su'' ''/a/abc'') (OtherFailure ''no such page'')]"
proof -
  let ?m = "example_manager example_config no_pages"
  let ?u = "https ''bunkrr.su'' ''/a/abc''"
  let ?si = "example_item ?u"
  let ?w2 = "\<lparr>cookies_set = True, next_task_id = 1,
       events = [AddTask ?u 0,
                 UpdateCookies ''__ddg1_'' ''one'' ddos_guard_domain,
                 UpdateCookies ''__ddgid_'' ''id'' ddos_guard_domain]\<rparr>"
  have g: "get_stream_link (LIB ?m) (FILE_FORMATS ?m) (url ?si) = Inr ?u" by code_simp
  have c: "set_cookies ?m (snd (add_task (url ?si) new_world)) = (None, ?w2)" by code_simp
  have h: "handler_body ?m (?si\<lparr>url := ?u\<rparr>) ?w2 =
             (Some (OtherFailure ''no such page''), ?si, ?w2)" by code_simp
  have "fetch ?m ?si new_world =
        (None, ?si,
         remove_task (next_task_id new_world)
           (case Some (OtherFailure ''no such page'') of
              None \<Rightarrow> ?w2 | Some e \<Rightarrow> emit (LogFailure ?u e) ?w2))"
    using fetch_propagation [of ?m ?si _ new_world ?u ?w2
        "Some (OtherFailure ''no such page'')" ?si ?w2] g c h
    by blast
  then have state: "fetch ?m ?si new_world =
     (None, ?si,
      \<lparr>cookies_set = True, next_task_id = 1,
       events = [AddTask ?u 0,
                 UpdateCookies ''__ddg1_'' ''one'' ddos_guard_domain,
                 UpdateCookies ''__ddgid_'' ''id'' ddos_guard_domain,
                 LogFailure ?u (OtherFailure ''no such page''),
                 RemoveTask 0]\<rparr>)"
    by (simp add: remove_task_def emit_def new_world_def)
  have f: "failures new_world = []" by (simp add: failures_def new_world_def)
  have log: "failures (snd (snd (fetch ?m ?si new_world))) =
     [LogFailure ?u (OtherFailure ''no such page'')]"
    using fetch_propagation [of ?m ?si _ new_world ?u ?w2
        "Some (OtherFailure ''no such page'')" ?si ?w2, THEN conjunct2, THEN conjunct2,
        THEN conjunct2] g c h f
    by simp
  from state log show ?thesis by (rule conjI)
qed

text \<open>
  Claim C1 as stated fails: for an item whose URL has no host, \<open>get_stream_link\<close> raises
  \<open>TypeError\<close> and \<open>fetch\<close> raises it to its caller; nothing is logged.
\<close>

theorem fetch_raises_counterexample:
  "fetch (example_manager example_config no_pages)
         (example_item (relative_url ''/a/abc'')) new_world =
     (Some TypeError, example_item (relative_url ''/a/abc''),
      \<lparr>cookies_set = False, next_task_id = 1,
       events = [AddTask (relative_url ''/a/abc'') 0]\<rparr>)"
  by code_simp

lemma dispatch_progress: "progress_calls (snd (snd (dispatch m si w))) = progress_calls w"
proof -
  obtain r si' w' where h: "handler_body m si w = (r, si', w')" by (cases "handler_body m si w")
  have "progress_calls w' = progress_calls w" using handler_body_progress[of m si w] h by simp
  then show ?thesis
    using wrapper_result[of "handler_body m" si w r si' w', OF h]
    by (cases r) (simp_all add: dispatch_wrapper progress_calls_emit)
qed

lemma dispatch_returns: "fst (dispatch m si w) = None"
proof -
  obtain r si' w' where h: "handler_body m si w = (r, si', w')" by (cases "handler_body m si w")
  show ?thesis
    using wrapper_result[of "handler_body m" si w r si' w', OF h] by (simp add: dispatch_wrapper)
qed

lemma fetch_returns_iff:
  "fst (fetch m si w) = None \<longleftrightarrow>
     (\<exists>link. get_stream_link (LIB m) (FILE_FORMATS m) (url si) = Inr link)
     \<and> fst (set_cookies m (snd (add_task (url si) w))) = None"
proof (cases "get_stream_link (LIB m) (FILE_FORMATS m) (url si)")
  case (Inl e)
  then show ?thesis by (simp add: fetch_def add_task_result)
next
  case (Inr link)
  obtain c w2 where sc: "set_cookies m (snd (add_task (url si) w)) = (c, w2)"
    by (cases "set_cookies m (snd (add_task (url si) w))")
  obtain r si' w3 where d: "dispatch m (si\<lparr>url := link\<rparr>) w2 = (r, si', w3)"
    by (cases "dispatch m (si\<lparr>url := link\<rparr>) w2")
  have "r = None" using dispatch_returns[of m "si\<lparr>url := link\<rparr>" w2] d by simp
  then show ?thesis
    using Inr sc d by (cases c) (simp_all add: fetch_def add_task_result)
qed

text \<open>
  Claim C2, as amended. \<open>fetch\<close> calls \<open>add_task\<close> exactly once, first, with the URL the item
  came with. It calls \<open>remove_task\<close>, with the task id that \<open>add_task\<close> returned, exactly once
  on every path on which it returns, and it returns exactly when \<open>get_stream_link\<close> and
  \<open>set_cookies\<close> have returned: every path on which a handler raises is among them. A path
  on which \<open>get_stream_link\<close> or \<open>set_cookies\<close> raises leaves \<open>fetch\<close> before \<open>remove_task\<close>.
\<close>

theorem fetch_progress_calls:
  "progress_calls (snd (snd (fetch m si w))) =
     progress_calls w @ AddTask (url si) (next_task_id w) #
       (if fst (fetch m si w) = None then [RemoveTask (next_task_id w)] else [])
   \<and> (fst (fetch m si w) = None \<longleftrightarrow>
        (\<exists>link. get_stream_link (LIB m) (FILE_FORMATS m) (url si) = Inr link)
        \<and> fst (set_cookies m (snd (add_task (url si) w))) = None)"
proof -
  let ?w1 = "snd (add_task (url si) w)"
  have p1: "progress_calls ?w1 = progress_calls w @ [AddTask (url si) (next_task_id w)]"
    by (simp add: add_task_result progress_calls_def emit_def)
  have calls: "progress_calls (snd (snd (fetch m si w))) =
     progress_calls w @ AddTask (url si) (next_task_id w) #
       (if fst (fetch m si w) = None then [RemoveTask (next_task_id w)] else [])"
  proof (cases "get_stream_link (LIB m) (FILE_FORMATS m) (url si)")
    case (Inl e)
    then show ?thesis using p1 by (simp add: fetch_def add_task_result)
  next
    case (Inr link)
    obtain c w2 where sc: "set_cookies m ?w1 = (c, w2)" by (cases "set_cookies m ?w1")
    have p2: "progress_calls w2 = progress_calls ?w1"
      using set_cookies_progress[of m ?w1] sc by simp
    obtain r si' w3 where d: "dispatch m (si\<lparr>url := link\<rparr>) w2 = (r, si', w3)"
      by (cases "dispatch m (si\<lparr>url := link\<rparr>) w2")
    have r: "r = None" using dispatch_returns[of m "si\<lparr>url := link\<rparr>" w2] d by simp
    have p3: "progress_calls w3 = progress_calls w2"
      using dispatch_progress[of m "si\<lparr>url := link\<rparr>" w2] d by simp
    show ?thesis
    proof (cases c)
      case None
      then have "fetch m si w = (None, si', remove_task (next_task_id w) w3)"
        using Inr sc d r by (simp add: fetch_def add_task_result)
      then show ?thesis
        using p1 p2 p3 by (simp add: remove_task_def progress_calls_emit)
    next
      case (Some e)
      then have "fetch m si w = (Some e, si\<lparr>url := link\<rparr>, w2)"
        using Inr sc by (simp add: fetch_def add_task_result)
      then show ?thesis using p1 p2 by simp
    qed
  qed
  from calls fetch_returns_iff show ?thesis by (rule conjI)
qed

theorem fetch_progress_calls_witness:
  "progress_calls (snd (snd (fetch (example_manager example_config no_pages)
         (example_item (https ''bunkrr.su'' ''/a/abc'')) new_world))) =
     [AddTask (https ''bunkrr.su'' ''/a/abc'') 0, RemoveTask 0]"
proof -
  let ?m = "example_manager example_config no_pages"
  let ?si = "example_item (https ''bunkrr.su'' ''/a/abc'')"
  have r: "fst (fetch ?m ?si new_world) = None" by code_simp
  have p: "progress_calls new_world = []" by code_simp
  have u: "url ?si = https ''bunkrr.su'' ''/a/abc''" by (simp add: example_item_def)
  have n: "next_task_id new_world = 0" by (simp add: new_world_def)
  show ?thesis
    using fetch_progress_calls [of ?m ?si new_world, THEN conjunct1] r p u n by simp
qed

text \<open>
  Claim C2 as stated fails: without the key \<open>bunkrr_ddg1\<close> in the configuration,
  \<open>set_cookies\<close> raises \<open>KeyError\<close> inside \<open>fetch\<close>, and \<open>fetch\<close> is left with the task added and
  never removed.
\<close>

theorem fetch_progress_counterexample:
  "fetch (example_manager config_without_ddg1 no_pages)
         (example_item (https ''bunkrr.su'' ''/a/abc'')) new_world =
     (Some KeyError, example_item (https ''bunkrr.su'' ''/a/abc''),
      \<lparr>cookies_set = False, next_task_id = 1,
       events = [AddTask (https ''bunkrr.su'' ''/a/abc'') 0]\<rparr>)"
  by code_simp

lemma add_to_parent_title_frame:
  "add_to_parent_title f s t = s\<lparr>parent_title := parent_title (add_to_parent_title f s t)\<rparr>"
  by (simp add: add_to_parent_title_def Let_def)

lemma file_body_item: "fst (snd (file_body select m si w)) = si"
  unfolding file_body_def
  by (auto split: sum.splits option.splits list.splits prod.splits)

lemma album_body_item:
  "fst (snd (album_body m si w)) = si \<or>
   (\<exists>title. fst (snd (album_body m si w)) = add_to_parent_title (sanitize_folder m) si title)"
  unfolding album_body_def Let_def
  by (auto split: sum.splits option.splits list.splits prod.splits)

lemma dispatch_item: "fst (snd (dispatch m si w)) = fst (snd (handler_body m si w))"
proof -
  obtain r si' w' where h: "handler_body m si w = (r, si', w')" by (cases "handler_body m si w")
  show ?thesis
    using wrapper_result[of "handler_body m" si w r si' w', OF h] h
    by (simp add: dispatch_wrapper)
qed

lemma handler_body_item:
  "fst (snd (handler_body m si w)) = si \<or>
   (''a'' \<in> set (url_parts (LIB m) (url si)) \<and>
    (\<exists>title. fst (snd (handler_body m si w)) = add_to_parent_title (sanitize_folder m) si title))"
  using album_body_item[of m si w]
  by (auto simp: handler_body_def video_body_def other_body_def file_body_item)

lemma fetch_item:
  "fst (snd (fetch m si w)) =
     (case get_stream_link (LIB m) (FILE_FORMATS m) (url si) of
        Inl e \<Rightarrow> si
      | Inr link \<Rightarrow>
          (case set_cookies m (snd (add_task (url si) w)) of
             (Some e, w2) \<Rightarrow> si\<lparr>url := link\<rparr>
           | (None, w2) \<Rightarrow> fst (snd (dispatch m (si\<lparr>url := link\<rparr>) w2))))"
  by (auto simp: fetch_def add_task_result split: sum.splits option.splits prod.splits)

text \<open>
  Claim C9. \<open>fetch\<close> changes the item it is given: once \<open>get_stream_link\<close> has returned, the
  URL of the item is the link it returned, which may differ from the URL the item came
  with. \<open>part_of_album\<close>, \<open>possible_datetime\<close>, \<open>retry\<close> and \<open>retry_path\<close> are as they were on
  every path, and \<open>parent_title\<close> differs only if the album handler ran and
  \<open>add_to_parent_title\<close> set it.
\<close>

theorem fetch_frame:
  assumes "fetch m si w = (r, si', w')"
  shows "part_of_album si' = part_of_album si
   \<and> possible_datetime si' = possible_datetime si
   \<and> retry si' = retry si
   \<and> retry_path si' = retry_path si
   \<and> url si' = (case get_stream_link (LIB m) (FILE_FORMATS m) (url si) of
                   Inl e \<Rightarrow> url si | Inr link \<Rightarrow> link)
   \<and> (parent_title si' = parent_title si \<or>
        (''a'' \<in> set (url_parts (LIB m) (url si')) \<and>
         (\<exists>title. parent_title si' =
            parent_title (add_to_parent_title (sanitize_folder m) si title))))"
proof (cases "get_stream_link (LIB m) (FILE_FORMATS m) (url si)")
  case (Inl e)
  then have "si' = si" using assms fetch_item[of m si w] by simp
  then show ?thesis using Inl by simp
next
  case (Inr link)
  obtain c w2 where sc: "set_cookies m (snd (add_task (url si) w)) = (c, w2)"
    by (cases "set_cookies m (snd (add_task (url si) w))")
  let ?s1 = "si\<lparr>url := link\<rparr>"
  have cases: "si' = ?s1 \<or>
     (''a'' \<in> set (url_parts (LIB m) link) \<and>
      (\<exists>title. si' = add_to_parent_title (sanitize_folder m) ?s1 title))"
  proof (cases c)
    case None
    then have "si' = fst (snd (handler_body m ?s1 w2))"
      using assms fetch_item[of m si w] Inr sc by (simp add: dispatch_item)
    then show ?thesis using handler_body_item[of m ?s1 w2] by auto
  next
    case (Some e)
    then show ?thesis using assms fetch_item[of m si w] Inr sc by simp
  qed
  then show ?thesis
  proof
    assume "si' = ?s1"
    then show ?thesis using Inr by simp
  next
    assume a: "''a'' \<in> set (url_parts (LIB m) link) \<and>
      (\<exists>title. si' = add_to_parent_title (sanitize_folder m) ?s1 title)"
    then obtain title where t: "si' = add_to_parent_title (sanitize_folder m) ?s1 title"
      by blast
    have f: "si' = ?s1\<lparr>parent_title := parent_title si'\<rparr>"
      using add_to_parent_title_frame[of "sanitize_folder m" ?s1 title] t by simp
    have u: "url si' = link" by (subst f) simp
    have p: "parent_title si' = parent_title (add_to_parent_title (sanitize_folder m) si title)"
      unfolding t by (simp add: add_to_parent_title_def Let_def)
    have "part_of_album si' = part_of_album si" by (subst f) simp
    moreover have "possible_datetime si' = possible_datetime si" by (subst f) simp
    moreover have "retry si' = retry si" by (subst f) simp
    moreover have "retry_path si' = retry_path si" by (subst f) simp
    ultimately show ?thesis using Inr u p a by auto
  qed
qed

theorem fetch_frame_witness:
  "url (fst (snd (fetch (example_manager example_config no_pages)
         (example_item (https ''cdn12.bunkr.ru'' ''/x/clip.mp4'')) new_world)))
     = https ''bunkrr.su'' ''/v/clip.mp4''
   \<and> part_of_album (fst (snd (fetch (example_manager example_config no_pages)
         (example_item (https ''cdn12.bunkr.ru'' ''/x/clip.mp4'')) new_world))) = False"
proof -
  let ?m = "example_manager example_config no_pages"
  let ?si = "example_item (https ''cdn12.bunkr.ru'' ''/x/clip.mp4'')"
  let ?r = "fetch ?m ?si new_world"
  have e: "?r = (fst ?r, fst (snd ?r), snd (snd ?r))" by simp
  have g: "get_stream_link (LIB ?m) (FILE_FORMATS ?m) (url ?si) = Inr (https ''bunkrr.su'' ''/v/clip.mp4'')"
    by code_simp
  have a: "part_of_album ?si = False" by (simp add: example_item_def)
  show ?thesis using fetch_frame [OF e] g a by simp
qed

lemma rmatch_consumes:
  "x \<in> set (rmatch r s) \<Longrightarrow> length s \<le> length x + maxlen r"
proof (induction r arbitrary: s x)
  case Eps
  then show ?case by simp
next
  case (Cls cs)
  then show ?case by (cases s) (auto split: if_splits)
next
  case (Seq a b)
  from Seq.prems obtain mid where m: "mid \<in> set (rmatch a s)" "x \<in> set (rmatch b mid)"
    by auto
  from Seq.IH(1)[OF m(1)] Seq.IH(2)[OF m(2)] show ?case by simp
next
  case (Alt a b)
  from Alt.prems have "x \<in> set (rmatch a s) \<or> x \<in> set (rmatch b s)" by simp
  then show ?case
  proof
    assume "x \<in> set (rmatch a s)"
    from Alt.IH(1)[OF this] show ?thesis by simp
  next
    assume "x \<in> set (rmatch b s)"
    from Alt.IH(2)[OF this] show ?thesis by simp
  qed
qed

lemma rmatch_append:
  "maxlen r \<le> length tok \<Longrightarrow> rmatch r (tok @ rest) = map (\<lambda>x. x @ rest) (rmatch r tok)"
proof (induction r arbitrary: tok)
  case Eps
  then show ?case by simp
next
  case (Cls cs)
  then show ?case by (cases tok) auto
next
  case (Seq a b)
  have a: "rmatch a (tok @ rest) = map (\<lambda>x. x @ rest) (rmatch a tok)"
    using Seq.prems by (intro Seq.IH(1)) simp
  have b: "\<And>x. x \<in> set (rmatch a tok) \<Longrightarrow>
             rmatch b (x @ rest) = map (\<lambda>y. y @ rest) (rmatch b x)"
  proof -
    fix x assume "x \<in> set (rmatch a tok)"
    from rmatch_consumes[OF this] Seq.prems have "maxlen b \<le> length x" by simp
    then show "rmatch b (x @ rest) = map (\<lambda>y. y @ rest) (rmatch b x)" by (rule Seq.IH(2))
  qed
  have "concat (map (rmatch b) (map (\<lambda>x. x @ rest) (rmatch a tok))) =
        concat (map (\<lambda>x. map (\<lambda>y. y @ rest) (rmatch b x)) (rmatch a tok))"
    using b by (simp add: comp_def cong: map_cong)
  also have "\<dots> = map (\<lambda>y. y @ rest) (concat (map (rmatch b) (rmatch a tok)))"
    by (simp add: map_concat comp_def)
  finally show ?case using a by simp
next
  case (Alt a b)
  then show ?case by simp
qed

lemma first_is_rmatch:
  assumes "maxlen r \<le> length tok" and "first_is [] (rmatch r tok)"
  shows "first_is rest (rmatch r (tok @ rest))"
  using assms(2) unfolding rmatch_append[OF assms(1)] first_is_def
  by (cases "rmatch r tok") simp_all

lemma maxlens: "maxlen re_H = 2" "maxlen re_M = 2" "maxlen re_S = 2" "maxlen re_d = 2"
  "maxlen re_m = 2" "maxlen re_Y = 4"
  by (simp_all add: re_H_def re_M_def re_S_def re_d_def re_m_def re_Y_def digit_def)

lemma fields_H: "list_all (\<lambda>n. first_is [] (rmatch re_H (show2 n))) [0 ..< 24]"
  by code_simp

lemma fields_M: "list_all (\<lambda>n. first_is [] (rmatch re_M (show2 n))) [0 ..< 60]"
  by code_simp

lemma fields_S: "list_all (\<lambda>n. first_is [] (rmatch re_S (show2 n))) [0 ..< 60]"
  by code_simp

lemma fields_d: "list_all (\<lambda>n. first_is [] (rmatch re_d (show2 n))) [1 ..< 32]"
  by code_simp

lemma fields_m: "list_all (\<lambda>n. first_is [] (rmatch re_m (show2 n))) [1 ..< 13]"
  by code_simp

lemma digit_facts:
  "list_all (\<lambda>k. of_char (digit_char k) - 48 = k \<and> \<not> is_space (digit_char k)
                   \<and> is_digit (digit_char k)) [0 ..< 10]"
  by code_simp

lemma digit_ascii: "list_all (\<lambda>k. \<not> digit7 (digit_char k)) [0 ..< 10]"
  by code_simp

lemma space_is_space: "is_space CHR '' ''"
  by code_simp

lemma in_range: "a \<le> n \<Longrightarrow> n < b \<Longrightarrow> list_all P [a ..< b] \<Longrightarrow> P n"
  by (simp add: list_all_iff)

lemma digit_char_value: "k < 10 \<Longrightarrow> of_char (digit_char k) - 48 = k"
  using in_range[OF _ _ digit_facts, of k] by simp

lemma digit_char_not_space: "k < 10 \<Longrightarrow> \<not> is_space (digit_char k)"
  using in_range[OF _ _ digit_facts, of k] by simp

lemma digit_char_is_digit: "k < 10 \<Longrightarrow> is_digit (digit_char k)"
  using in_range[OF _ _ digit_facts, of k] by simp

lemma digit_char_ascii: "k < 10 \<Longrightarrow> \<not> digit7 (digit_char k)"
  using in_range[OF _ _ digit_ascii, of k] by simp

lemma show2_ascii: "n < 100 \<Longrightarrow> isascii (show2 n)"
  by (simp add: isascii_def show2_def digit_char_ascii)

lemma show4_ascii: "n < 10000 \<Longrightarrow> isascii (show4 n)"
  by (simp add: isascii_def show4_def digit_char_ascii)

lemma isascii_append: "isascii (a @ b) \<longleftrightarrow> isascii a \<and> isascii b"
  by (simp add: isascii_def)

lemma strip_digits:
  assumes "\<not> is_space (hd s)" and "\<not> is_space (last s)" and "s \<noteq> []"
  shows "strip_ascii s = s"
proof -
  have a: "dropWhile is_space s = s"
    using assms(1) by (simp add: dropWhile_eq_self_iff)
  have b: "dropWhile is_space (rev s) = rev s"
    using assms(2,3) by (simp add: dropWhile_eq_self_iff hd_rev)
  show ?thesis by (simp add: strip_ascii_def a b)
qed

lemma four_digits:
  "(1000 * (n div 1000) + 100 * (n div 100 mod 10) + 10 * (n div 10 mod 10) + n mod 10 :: nat) = n"
proof -
  have a: "n mod 100 = 10 * (n div 10 mod 10) + n mod 10"
    using mod_mult2_eq[of n 10 10] by simp
  have b: "n mod 1000 = 100 * (n div 100 mod 10) + n mod 100"
    using mod_mult2_eq[of n 100 10] by simp
  have "n = 1000 * (n div 1000) + n mod 1000" by simp
  then show ?thesis using a b by linarith
qed

lemma py_int_show2:
  assumes "n < 100"
  shows "py_int (show2 n) = n"
proof -
  have a: "n div 10 < 10" and b: "n mod 10 < 10" using assms by simp_all
  have s: "strip_ascii (show2 n) = show2 n"
    using digit_char_not_space[OF a] digit_char_not_space[OF b]
    by (intro strip_digits) (simp_all add: show2_def)
  have "py_int (show2 n) = int_of_digits (show2 n)" by (simp add: py_int_def s)
  also have "\<dots> = 10 * (n div 10) + n mod 10"
    using digit_char_value[OF a] digit_char_value[OF b]
    by (simp add: int_of_digits_def show2_def)
  finally show ?thesis by simp
qed

lemma py_int_show4:
  assumes "n < 10000"
  shows "py_int (show4 n) = n"
proof -
  have a: "n div 1000 < 10" using assms by simp
  have b: "n div 100 mod 10 < 10" and c: "n div 10 mod 10 < 10" and d: "n mod 10 < 10"
    by simp_all
  have s: "strip_ascii (show4 n) = show4 n"
    using digit_char_not_space[OF a] digit_char_not_space[OF d]
    by (intro strip_digits) (simp_all add: show4_def)
  have e: "1000 * (n div 1000) + 100 * (n div 100 mod 10) + 10 * (n div 10 mod 10) + n mod 10 = n"
    by (rule four_digits)
  have "py_int (show4 n) = int_of_digits (show4 n)" by (simp add: py_int_def s)
  also have "\<dots> = 1000 * (n div 1000) + 100 * (n div 100 mod 10) + 10 * (n div 10 mod 10)
      + n mod 10"
    using digit_char_value[OF a] digit_char_value[OF b] digit_char_value[OF c]
      digit_char_value[OF d]
    by (simp add: int_of_digits_def show4_def)
  finally show ?thesis using e by simp
qed

lemma rmatch_digit: "is_digit c \<Longrightarrow> rmatch digit (c # s) = [s]"
  by (simp add: digit_def is_digit_def)

lemma field_Y:
  assumes "n < 10000"
  shows "first_is [] (rmatch re_Y (show4 n))"
proof -
  have a: "n div 1000 < 10" using assms by simp
  have b: "n div 100 mod 10 < 10" and c: "n div 10 mod 10 < 10" and d: "n mod 10 < 10"
    by simp_all
  show ?thesis
    using digit_char_is_digit[OF a] digit_char_is_digit[OF b] digit_char_is_digit[OF c]
      digit_char_is_digit[OF d]
    by (simp add: re_Y_def show4_def rmatch_digit first_is_def)
qed

lemma group_first:
  assumes "maxlen r \<le> length tok" and "first_is [] (rmatch r tok)"
  shows "first_is (gs @ [tok], rest) (group r (gs, tok @ rest))"
proof -
  have "first_is rest (rmatch r (tok @ rest))" using assms by (rule first_is_rmatch)
  then obtain t where "rmatch r (tok @ rest) = rest # t"
    by (cases "rmatch r (tok @ rest)") (simp_all add: first_is_def)
  then show ?thesis by (simp add: group_def first_is_def)
qed

lemma literal_first: "first_is (gs, rest) (literal [c] (gs, c # rest))"
  by (simp add: literal_def first_is_def)

lemma spaces_first:
  assumes "\<not> is_space x"
  shows "first_is (gs, x # rest) (spaces (gs, CHR '' '' # x # rest))"
  using assms space_is_space by (simp add: spaces_def first_is_def)

lemma and_then_first:
  assumes "first_is x ms" and "first_is y (f x)"
  shows "first_is y (and_then ms f)"
proof -
  obtain t where m: "ms = x # t" using assms(1) by (cases ms) (simp_all add: first_is_def)
  obtain t' where f: "f x = y # t'" using assms(2) by (cases "f x") (simp_all add: first_is_def)
  show ?thesis by (simp add: and_then_def m f first_is_def)
qed

lemma is_leap_leap_year: "is_leap y = leap_year y"
  by (simp add: is_leap_def leap_year_def dvd_eq_mod_eq_0)

lemma div_step: "0 < k \<Longrightarrow> int (Suc x) div int k = int x div int k + (if k dvd Suc x then 1 else 0)"
proof -
  assume "0 < k"
  have "Suc x div k = x div k + (if k dvd Suc x then 1 else 0)"
    by (simp add: div_Suc dvd_eq_mod_eq_0)
  then have "int (Suc x div k) = int (x div k) + (if k dvd Suc x then 1 else 0)"
    by simp
  then show ?thesis by (simp add: zdiv_int)
qed

lemma days_before_year_Suc:
  "days_before_year (Suc (Suc x)) = days_before_year (Suc x) + int (year_days (Suc x))"
proof -
  have d4: "int (Suc x) div 4 = int x div 4 + (if 4 dvd Suc x then 1 else 0)"
    using div_step[of 4 x] by simp
  have d100: "int (Suc x) div 100 = int x div 100 + (if 100 dvd Suc x then 1 else 0)"
    using div_step[of 100 x] by simp
  have d400: "int (Suc x) div 400 = int x div 400 + (if 400 dvd Suc x then 1 else 0)"
    using div_step[of 400 x] by simp
  have c1: "400 dvd Suc x \<Longrightarrow> 100 dvd Suc x"
    by (rule dvd_trans[of 100 400]) simp_all
  have c2: "100 dvd Suc x \<Longrightarrow> 4 dvd Suc x"
    by (rule dvd_trans[of 4 100]) simp_all
  have l: "days_before_year (Suc (Suc x)) =
           int (Suc x) * 365 + int (Suc x) div 4 - int (Suc x) div 100 + int (Suc x) div 400"
    by (simp add: days_before_year_def Let_def)
  have r: "days_before_year (Suc x) = int x * 365 + int x div 4 - int x div 100 + int x div 400"
    by (simp add: days_before_year_def Let_def)
  consider (plain) "\<not> 4 dvd Suc x" | (leap) "4 dvd Suc x" "\<not> 100 dvd Suc x"
    | (century) "100 dvd Suc x" "\<not> 400 dvd Suc x" | (fourth) "400 dvd Suc x"
    by blast
  then show ?thesis
  proof cases
    case plain
    then have "\<not> 100 dvd Suc x" "\<not> 400 dvd Suc x" using c1 c2 by blast+
    then show ?thesis
      unfolding l r d4 d100 d400 year_days_def leap_year_def using plain by simp
  next
    case leap
    then have "\<not> 400 dvd Suc x" using c1 by blast
    then show ?thesis
      unfolding l r d4 d100 d400 year_days_def leap_year_def using leap by simp
  next
    case century
    then have "4 dvd Suc x" using c2 by blast
    then show ?thesis
      unfolding l r d4 d100 d400 year_days_def leap_year_def using century by simp
  next
    case fourth
    then have "100 dvd Suc x" "4 dvd Suc x" using c1 c2 by blast+
    then show ?thesis
      unfolding l r d4 d100 d400 year_days_def leap_year_def using fourth by simp
  qed
qed

lemma year_days_sum:
  assumes "1 \<le> a" and "a \<le> b"
  shows "int (sum_list (map year_days [a ..< b])) = days_before_year b - days_before_year a"
  using assms(2)
proof (induction b rule: dec_induct)
  case base
  then show ?case by simp
next
  case (step n)
  from assms(1) step.hyps(1) obtain x where n: "n = Suc x" by (cases n) auto
  show ?case using step.IH step.hyps(1) days_before_year_Suc[of x] by (simp add: n)
qed

lemma days_before_year_1970: "days_before_year 1970 = 719162"
  by (simp add: days_before_year_def)

lemma year_part:
  assumes "1 \<le> y"
  shows "(if 1970 \<le> y then int (sum_list (map year_days [1970 ..< y]))
          else - int (sum_list (map year_days [y ..< 1970]))) = days_before_year y - 719162"
proof (cases "1970 \<le> y")
  case True
  then show ?thesis using year_days_sum[of 1970 y] days_before_year_1970 by simp
next
  case False
  then show ?thesis using year_days_sum[of y 1970] assms days_before_year_1970 by simp
qed

lemma months_list: "[1 ..< 13] = [1, 2, 3, 4, 5, 6, 7, 8, 9, 10, 11, 12 :: nat]"
  by code_simp

lemma month_cases:
  assumes "1 \<le> mo" and "mo \<le> 12"
  shows "mo \<in> set [1, 2, 3, 4, 5, 6, 7, 8, 9, 10, 11, 12 :: nat]"
proof -
  have "mo \<in> set [1 ..< 13]" using assms by simp
  then show ?thesis unfolding months_list .
qed

lemma month_facts:
  assumes "1 \<le> mo" and "mo \<le> 12"
  shows "days_in_month y mo = month_days y mo"
    and "days_before_month y mo = int (sum_list (map (month_days y) [1 ..< mo]))"
    and "month_days y mo \<le> 31"
proof -
  have m: "mo \<in> set [1, 2, 3, 4, 5, 6, 7, 8, 9, 10, 11, 12 :: nat]"
    using assms by (rule month_cases)
  have u: "[Suc 0 ..< 2] = [1::nat]" "[Suc 0 ..< 3] = [1, 2::nat]"
    "[Suc 0 ..< 4] = [1, 2, 3::nat]"
    "[Suc 0 ..< 5] = [1, 2, 3, 4::nat]" "[Suc 0 ..< 6] = [1, 2, 3, 4, 5::nat]"
    "[Suc 0 ..< 7] = [1, 2, 3, 4, 5, 6::nat]" "[Suc 0 ..< 8] = [1, 2, 3, 4, 5, 6, 7::nat]"
    "[Suc 0 ..< 9] = [1, 2, 3, 4, 5, 6, 7, 8::nat]"
    "[Suc 0 ..< 10] = [1, 2, 3, 4, 5, 6, 7, 8, 9::nat]"
    "[Suc 0 ..< 11] = [1, 2, 3, 4, 5, 6, 7, 8, 9, 10::nat]"
    "[Suc 0 ..< 12] = [1, 2, 3, 4, 5, 6, 7, 8, 9, 10, 11::nat]"
    by code_simp+
  show "days_in_month y mo = month_days y mo"
    using m by (auto simp: days_in_month_def month_days_def is_leap_leap_year)
  show "days_before_month y mo = int (sum_list (map (month_days y) [1 ..< mo]))"
    using m by (auto simp: days_before_month_def month_days_def is_leap_leap_year u)
  show "month_days y mo \<le> 31"
    by (simp add: month_days_def)
qed

lemma timegm_unix_epoch:
  assumes "1 \<le> y" and "1 \<le> mo" and "mo \<le> 12"
  shows "timegm y mo d h mi s = unix_epoch y mo d h mi s"
proof -
  have "toordinal y mo 1 - EPOCH_ORD + int d - 1 = days_since_epoch y mo d"
    unfolding toordinal_def EPOCH_ORD_def days_since_epoch_def year_part[OF assms(1)]
      month_facts(2)[OF assms(2,3)]
    by simp
  then show ?thesis
    by (simp add: timegm_def unix_epoch_def Let_def algebra_simps)
qed

lemma show_lengths: "length (show2 n) = 2" "length (show4 n) = 4"
  by (simp_all add: show2_def show4_def)

lemma strptime_first:
  assumes "h < 24" and "mi < 60" and "s < 60" and "1 \<le> d" and "d \<le> 31"
    and "1 \<le> mo" and "mo \<le> 12" and "y < 10000"
  shows "first_is ([show2 h, show2 mi, show2 s, show2 d, show2 mo, show4 y], [])
     (strptime_matches (show2 h @ '':'' @ show2 mi @ '':'' @ show2 s @ '' '' @ show2 d
        @ ''/'' @ show2 mo @ ''/'' @ show4 y))"
proof -
  define r5 where "r5 = show2 mo @ ''/'' @ show4 y"
  define r4 where "r4 = show2 d @ ''/'' @ r5"
  define r3 where "r3 = show2 s @ '' '' @ r4"
  define r2 where "r2 = show2 mi @ '':'' @ r3"
  have H: "first_is [] (rmatch re_H (show2 h))"
    using in_range[OF _ _ fields_H, of h] assms(1) by simp
  have M: "first_is [] (rmatch re_M (show2 mi))"
    using in_range[OF _ _ fields_M, of mi] assms(2) by simp
  have S: "first_is [] (rmatch re_S (show2 s))"
    using in_range[OF _ _ fields_S, of s] assms(3) by simp
  have D: "first_is [] (rmatch re_d (show2 d))"
    using in_range[OF _ _ fields_d, of d] assms(4,5) by simp
  have Mo: "first_is [] (rmatch re_m (show2 mo))"
    using in_range[OF _ _ fields_m, of mo] assms(6,7) by simp
  have Y: "first_is [] (rmatch re_Y (show4 y))" using assms(8) by (rule field_Y)
  have g1: "first_is ([show2 h], '':'' @ r2) (group re_H ([], show2 h @ '':'' @ r2))"
    using group_first[of re_H "show2 h" "[]" "'':'' @ r2"] H
    by (simp add: maxlens show_lengths)
  have g2: "first_is ([show2 h], r2) (literal '':'' ([show2 h], '':'' @ r2))"
    using literal_first[of "[show2 h]" r2 "CHR '':''"] by simp
  have g3: "first_is ([show2 h, show2 mi], '':'' @ r3) (group re_M ([show2 h], r2))"
    unfolding r2_def
    using group_first[of re_M "show2 mi" "[show2 h]" "'':'' @ r3"] M
    by (simp add: maxlens show_lengths)
  have g4: "first_is ([show2 h, show2 mi], r3) (literal '':'' ([show2 h, show2 mi], '':'' @ r3))"
    using literal_first[of "[show2 h, show2 mi]" r3 "CHR '':''"] by simp
  have g5: "first_is ([show2 h, show2 mi, show2 s], '' '' @ r4)
              (group re_S ([show2 h, show2 mi], r3))"
    unfolding r3_def
    using group_first[of re_S "show2 s" "[show2 h, show2 mi]" "'' '' @ r4"] S
    by (simp add: maxlens show_lengths)
  have dd: "d div 10 < 10" using assms(5) by simp
  have g6: "first_is ([show2 h, show2 mi, show2 s], r4)
              (spaces ([show2 h, show2 mi, show2 s], '' '' @ r4))"
    unfolding r4_def show2_def
    using spaces_first[OF digit_char_not_space[OF dd],
        of "[show2 h, show2 mi, show2 s]" "digit_char (d mod 10) # ''/'' @ r5"]
    by (simp add: show2_def)
  have g7: "first_is ([show2 h, show2 mi, show2 s, show2 d], ''/'' @ r5)
              (group re_d ([show2 h, show2 mi, show2 s], r4))"
    unfolding r4_def
    using group_first[of re_d "show2 d" "[show2 h, show2 mi, show2 s]" "''/'' @ r5"] D
    by (simp add: maxlens show_lengths)
  have g8: "first_is ([show2 h, show2 mi, show2 s, show2 d], r5)
              (literal ''/'' ([show2 h, show2 mi, show2 s, show2 d], ''/'' @ r5))"
    using literal_first[of "[show2 h, show2 mi, show2 s, show2 d]" r5 "CHR ''/''"] by simp
  have g9: "first_is ([show2 h, show2 mi, show2 s, show2 d, show2 mo], ''/'' @ show4 y)
              (group re_m ([show2 h, show2 mi, show2 s, show2 d], r5))"
    unfolding r5_def
    using group_first[of re_m "show2 mo" "[show2 h, show2 mi, show2 s, show2 d]"
        "''/'' @ show4 y"] Mo
    by (simp add: maxlens show_lengths)
  have g10: "first_is ([show2 h, show2 mi, show2 s, show2 d, show2 mo], show4 y)
              (literal ''/'' ([show2 h, show2 mi, show2 s, show2 d, show2 mo], ''/'' @ show4 y))"
    using literal_first[of "[show2 h, show2 mi, show2 s, show2 d, show2 mo]" "show4 y"
        "CHR ''/''"] by simp
  have g11: "first_is ([show2 h, show2 mi, show2 s, show2 d, show2 mo, show4 y], [])
              (group re_Y ([show2 h, show2 mi, show2 s, show2 d, show2 mo], show4 y))"
    using group_first[of re_Y "show4 y" "[show2 h, show2 mi, show2 s, show2 d, show2 mo]" "[]"] Y
    by (simp add: maxlens show_lengths)
  note a2 = and_then_first[where f = "literal '':''", OF g1 g2]
  note a3 = and_then_first[where f = "group re_M", OF a2 g3]
  note a4 = and_then_first[where f = "literal '':''", OF a3 g4]
  note a5 = and_then_first[where f = "group re_S", OF a4 g5]
  note a6 = and_then_first[where f = spaces, OF a5 g6]
  note a7 = and_then_first[where f = "group re_d", OF a6 g7]
  note a8 = and_then_first[where f = "literal ''/''", OF a7 g8]
  note a9 = and_then_first[where f = "group re_m", OF a8 g9]
  note a10 = and_then_first[where f = "literal ''/''", OF a9 g10]
  note a11 = and_then_first[where f = "group re_Y", OF a10 g11]
  show ?thesis
    using a11 unfolding strptime_matches_def r2_def r3_def r4_def r5_def by simp
qed

text \<open>
  Claim C7. For every time of day and every day of the Gregorian calendar in the years 1
  to 9999, written as \<open>HH:MM:SS DD/MM/YYYY\<close> with two digits for each field and four for
  the year, \<open>parse_datetime\<close> returns the number of seconds from 1970-01-01T00:00:00Z to
  that time read as UTC, the days being counted year by year and month by month. The text
  \<open>14:30:00 05/03/2021\<close> gives 1614954600.
\<close>

theorem parse_datetime_utc:
  assumes "h < 24" and "mi < 60" and "s < 60"
    and "1 \<le> y" and "y \<le> 9999" and "1 \<le> mo" and "mo \<le> 12"
    and "1 \<le> d" and "d \<le> month_days y mo"
  shows "parse_datetime lib (show2 h @ '':'' @ show2 mi @ '':'' @ show2 s @ '' '' @ show2 d
           @ ''/'' @ show2 mo @ ''/'' @ show4 y)
         = Inr (unix_epoch y mo d h mi s)"
proof -
  let ?text = "show2 h @ '':'' @ show2 mi @ '':'' @ show2 s @ '' '' @ show2 d
           @ ''/'' @ show2 mo @ ''/'' @ show4 y"
  have d31: "d \<le> 31" using assms(9) month_facts(3)[OF assms(6,7), of y] by simp
  have y4: "y < 10000" using assms(5) by simp
  have "first_is ([show2 h, show2 mi, show2 s, show2 d, show2 mo, show4 y], [])
          (strptime_matches ?text)"
    using assms(1,2,3,8) d31 assms(6,7) y4 by (rule strptime_first)
  then obtain t where m: "strptime_matches ?text =
      ([show2 h, show2 mi, show2 s, show2 d, show2 mo, show4 y], []) # t"
    by (cases "strptime_matches ?text") (simp_all add: first_is_def)
  have ints: "py_int (show2 h) = h" "py_int (show2 mi) = mi" "py_int (show2 s) = s"
    "py_int (show2 d) = d" "py_int (show2 mo) = mo" "py_int (show4 y) = y"
    using assms(1,2,3,7) d31 y4 by (simp_all add: py_int_show2 py_int_show4)
  have dim: "days_in_month y mo = month_days y mo"
    using assms(6,7) by (rule month_facts(1))
  have marks: "isascii '':''" "isascii '' ''" "isascii ''/''"
    by (simp_all add: isascii_def)
  have parts: "isascii (show2 h)" "isascii (show2 mi)" "isascii (show2 s)"
    "isascii (show2 d)" "isascii (show2 mo)" "isascii (show4 y)"
    using assms(1,2,3,7) d31 y4 by (simp_all add: show2_ascii show4_ascii)
  have plain: "isascii ?text"
    using marks parts by (simp only: isascii_append simp_thms)
  have "strptime_ascii ?text = Inr (y, mo, d, h, mi, s)"
    unfolding strptime_ascii_def m
    using assms(3,4,8,9) by (simp add: ints dim Let_def)
  then have "parse_datetime lib ?text = Inr (timegm y mo d h mi s)"
    using plain by (simp add: parse_datetime_def strptime_def)
  then show ?thesis using timegm_unix_epoch[OF assms(4,6,7)] by simp
qed

theorem parse_datetime_utc_witness:
  "parse_datetime example_library ''14:30:00 05/03/2021'' = Inr (unix_epoch 2021 3 5 14 30 0)
   \<and> unix_epoch 2021 3 5 14 30 0 = 1614954600"
proof -
  have t: "show2 14 @ '':'' @ show2 30 @ '':'' @ show2 0 @ '' '' @ show2 5
           @ ''/'' @ show2 3 @ ''/'' @ show4 2021 = ''14:30:00 05/03/2021''"
    by code_simp
  have m: "(5::nat) \<le> month_days 2021 3" by code_simp
  have years: "sum_list (map year_days [1970 ..< 2021]) = 18628"
    by (simp add: year_days_def leap_year_def upt_rec[of "numeral _"])
  have months: "sum_list (map (month_days 2021) [1 ..< 3]) = 59"
    by (simp add: month_days_def leap_year_def upt_rec[of "Suc _"] upt_rec[of "numeral _"])
  have e: "unix_epoch 2021 3 5 14 30 0 = 1614954600"
    unfolding unix_epoch_def days_since_epoch_def years months by simp
  have "parse_datetime example_library ''14:30:00 05/03/2021''
          = Inr (unix_epoch 2021 3 5 14 30 0)"
    using parse_datetime_utc [of 14 30 0 2021 3 5 example_library] m unfolding t by simp
  then show ?thesis using e by simp
qed










end
